theory Spec2Isabelle
  imports Main
begin

section \<open>Text and numbers as the TypeScript code sees them\<close>

text \<open>
  The configuration source \<^verbatim>\<open>server/config/signaturePositions.ts\<close> is read and written as
  text by \<^verbatim>\<open>server/routes/adminFormManagement.ts\<close>. A text is a \<open>string\<close>: each \<open>char\<close>
  stands for one UTF-16 code unit below 256 (the shipped configuration is plain ASCII).
\<close>

definition dq :: char where "dq = CHR 0x22"
definition bsl :: char where "bsl = CHR 0x5C"
definition nl :: char where "nl = CHR 0x0A"

text \<open>The class \<^verbatim>\<open>\s\<close> of a regular expression, which is also what \<^verbatim>\<open>trim()\<close> removes.\<close>

definition is_space :: "char \<Rightarrow> bool" where
  "is_space c = (c \<in> {CHR 0x09, CHR 0x0A, CHR 0x0B, CHR 0x0C, CHR 0x0D, CHR 0x20, CHR 0xA0})"

text \<open>Line terminators: what \<^verbatim>\<open>.\<close> refuses to match without the \<^verbatim>\<open>s\<close> flag.\<close>

definition line_term :: "char \<Rightarrow> bool" where
  "line_term c = (c = CHR 0x0A \<or> c = CHR 0x0D)"

definition is_digit :: "char \<Rightarrow> bool" where
  "is_digit c = (c \<in> set ''0123456789'')"

text \<open>
  A JavaScript number is either \<open>NaN\<close> or a decimal \<open>Dec m e\<close> of value \<open>m / 10 ^ e\<close>. Only
  decimals that JavaScript prints in plain notation are meant (no exponent part); a decimal
  is kept in lowest terms (\<open>e = 0\<close> or the last digit of \<open>m\<close> is not zero), so that equal numbers
  are equal terms.
\<close>

datatype jsnum = NaN | Dec int nat

definition num :: "int \<Rightarrow> jsnum" where
  "num n = Dec n 0"

definition default_opacity :: jsnum where
  "default_opacity = Dec 7 1"

fun truthy :: "jsnum \<Rightarrow> bool" where
  "truthy NaN = False"
| "truthy (Dec m e) = (m \<noteq> 0)"

text \<open>\<^verbatim>\<open>a !== b\<close> on numbers: \<open>NaN\<close> differs from everything, itself included.\<close>

fun strict_neq :: "jsnum \<Rightarrow> jsnum \<Rightarrow> bool" where
  "strict_neq NaN b = True"
| "strict_neq a NaN = True"
| "strict_neq (Dec m e) (Dec n f) = (m \<noteq> n \<or> e \<noteq> f)"

definition digit_char :: "nat \<Rightarrow> char" where
  "digit_char d = ''0123456789'' ! (d mod 10)"

fun digits :: "nat \<Rightarrow> string" where
  "digits n = (if n < 10 then [digit_char n] else digits (n div 10) @ [digit_char (n mod 10)])"

declare digits.simps [simp del]

fun frac_digits :: "nat \<Rightarrow> nat \<Rightarrow> string" where
  "frac_digits 0 n = []"
| "frac_digits (Suc e) n = frac_digits e (n div 10) @ [digit_char (n mod 10)]"

text \<open>Number to string, as a template literal \<^verbatim>\<open>${n}\<close> does it.\<close>

fun show_num :: "jsnum \<Rightarrow> string" where
  "show_num NaN = ''NaN''"
| "show_num (Dec m e) =
     (if m < 0 then ''-'' else []) @ digits (nat \<bar>m\<bar> div 10 ^ e) @
     (if e = 0 then [] else ''.'' @ frac_digits e (nat \<bar>m\<bar> mod 10 ^ e))"

fun norm_dec :: "int \<Rightarrow> nat \<Rightarrow> jsnum" where
  "norm_dec m 0 = Dec m 0"
| "norm_dec m (Suc e) = (if m mod 10 = 0 then norm_dec (m div 10) e else Dec m (Suc e))"

definition digit_val :: "char \<Rightarrow> nat" where
  "digit_val c = of_char c - 48"

definition digits_val :: "string \<Rightarrow> nat" where
  "digits_val ds = foldl (\<lambda>a c. 10 * a + digit_val c) 0 ds"

definition hex_digit :: "char \<Rightarrow> bool" where
  "hex_digit c = (is_digit c \<or> c \<in> set ''abcdef'' \<or> c \<in> set ''ABCDEF'')"

definition hex_val :: "char \<Rightarrow> nat" where
  "hex_val c = (if is_digit c then of_char c - 48
                else if c \<in> set ''abcdef'' then of_char c - 87 else of_char c - 55)"

definition hex_digits_val :: "string \<Rightarrow> nat" where
  "hex_digits_val ds = foldl (\<lambda>a c. 16 * a + hex_val c) 0 ds"

text \<open>
  \<^verbatim>\<open>parseInt(s)\<close> with no radix: leading white space, an optional sign, an optional
  \<^verbatim>\<open>0x\<close> prefix, then the longest run of digits; \<open>NaN\<close> when there is no digit.
\<close>

definition unsigned_int :: "string \<Rightarrow> nat option" where
  "unsigned_int s =
     (case s of
        c # d # r \<Rightarrow>
          (if c = CHR ''0'' \<and> (d = CHR ''x'' \<or> d = CHR ''X'')
           then (let hs = takeWhile hex_digit r
                 in if hs = [] then None else Some (hex_digits_val hs))
           else (let ds = takeWhile is_digit s
                 in if ds = [] then None else Some (digits_val ds)))
      | _ \<Rightarrow>
          (let ds = takeWhile is_digit s
           in if ds = [] then None else Some (digits_val ds)))"

definition parseInt :: "string \<Rightarrow> jsnum" where
  "parseInt s =
     (let t = dropWhile is_space s;
          neg = (t \<noteq> [] \<and> hd t = CHR ''-'');
          u = (if t \<noteq> [] \<and> (hd t = CHR ''-'' \<or> hd t = CHR ''+'') then tl t else t)
      in case unsigned_int u of
           None \<Rightarrow> NaN
         | Some n \<Rightarrow> Dec (if neg then - int n else int n) 0)"

text \<open>
  \<^verbatim>\<open>parseFloat(s)\<close>: leading white space, an optional sign, digits with an optional
  fraction; \<open>NaN\<close> when there is no digit. An exponent part and \<^verbatim>\<open>Infinity\<close> are not
  modelled: the only strings the code passes consist of backslashes, \<^verbatim>\<open>d\<close> and dots.
\<close>

definition parseFloat :: "string \<Rightarrow> jsnum" where
  "parseFloat s =
     (let t = dropWhile is_space s;
          neg = (t \<noteq> [] \<and> hd t = CHR ''-'');
          u = (if t \<noteq> [] \<and> (hd t = CHR ''-'' \<or> hd t = CHR ''+'') then tl t else t);
          ds = takeWhile is_digit u;
          r = dropWhile is_digit u;
          fs = (if r \<noteq> [] \<and> hd r = CHR ''.'' then takeWhile is_digit (tl r) else [])
      in if ds = [] \<and> fs = [] then NaN
         else norm_dec ((if neg then -1 else 1) * int (digits_val (ds @ fs))) (length fs))"

section \<open>The position record and the in-memory catalogue\<close>

text \<open>
  \<^verbatim>\<open>interface SignaturePosition { x; y; width; height; opacity? }\<close>: the optional field is
  an \<open>option\<close>. The catalogue \<^verbatim>\<open>signaturePositions\<close> is the module's exported object, a
  finite map of its own properties (keys naming members of \<^verbatim>\<open>Object.prototype\<close> are outside
  the model).
\<close>

record position =
  x :: jsnum
  y :: jsnum
  width :: jsnum
  height :: jsnum
  opacity :: "jsnum option"

type_synonym catalogue = "string \<rightharpoonup> position"

definition mk_pos :: "int \<Rightarrow> int \<Rightarrow> int \<Rightarrow> int \<Rightarrow> jsnum \<Rightarrow> position" where
  "mk_pos a b w h opa = \<lparr>x = num a, y = num b, width = num w, height = num h, opacity = Some opa\<rparr>"

definition signaturePositions :: catalogue where
  "signaturePositions =
     [''absa-form'' \<mapsto> mk_pos 78 376 200 60 (num 1),
      ''clearance-certificate-form'' \<mapsto> mk_pos 104 184 200 60 (Dec 7 1),
      ''sahl-certificate-form'' \<mapsto> mk_pos 323 177 200 60 (num 1),
      ''discovery-form'' \<mapsto> mk_pos 172 74 200 60 (num 1),
      ''liability-form'' \<mapsto> mk_pos 360 580 200 60 (num 1),
      ''noncompliance-form'' \<mapsto> mk_pos 300 700 200 60 (Dec 7 1),
      ''material-list-form'' \<mapsto> mk_pos 320 750 200 60 (Dec 7 1),
      ''default'' \<mapsto> mk_pos 168 722 200 30 (Dec 7 1)]"

text \<open>
  \<^verbatim>\<open>signaturePositions[formType] || signaturePositions["default"]\<close>: an object is always
  truthy, so the fallback is taken exactly when the key is missing; \<open>None\<close> is
  \<^verbatim>\<open>undefined\<close>, returned when \<^verbatim>\<open>"default"\<close> is missing too.
\<close>

definition getSignaturePosition :: "catalogue \<Rightarrow> string \<Rightarrow> position option" where
  "getSignaturePosition cat formType =
     (case cat formType of Some p \<Rightarrow> Some p | None \<Rightarrow> cat ''default'')"

text \<open>
  \<^verbatim>\<open>signaturePositions[formType] = { ...position, opacity: position.opacity || 0.7 }\<close>
\<close>

definition opacity_or_default :: "jsnum option \<Rightarrow> jsnum" where
  "opacity_or_default opa = (case opa of Some v \<Rightarrow> (if truthy v then v else default_opacity)
                                        | None \<Rightarrow> default_opacity)"

definition updateSignaturePosition :: "string \<Rightarrow> position \<Rightarrow> catalogue \<Rightarrow> catalogue" where
  "updateSignaturePosition formType p cat =
     cat(formType \<mapsto> p\<lparr>opacity := Some (opacity_or_default (opacity p))\<rparr>)"

section \<open>The block pattern\<close>

text \<open>
  Reader and writer build the pattern \<^verbatim>\<open>new RegExp(`"${formType}":\\s*{[^}]*}`, flags)\<close>:
  the key is spliced into the pattern source. A key character \<^verbatim>\<open>.\<close> therefore matches any
  character (any but a line terminator without the \<^verbatim>\<open>s\<close> flag); every other character is
  taken literally here, which is what the pattern does for a key satisfying \<open>pattern_key\<close>
  (no other character of the pattern syntax, and no \<^verbatim>\<open>$\<close>, which is also special in a
  replacement string).
\<close>

definition pattern_key :: "string \<Rightarrow> bool" where
  "pattern_key k = (\<forall>c \<in> set k. c \<noteq> bsl \<and> c \<notin> set ''^$*+?()[]{}|'')"

text \<open>Template keys as the catalogue has them: letters, digits, hyphens, underscores.\<close>

definition key_char :: "char \<Rightarrow> bool" where
  "key_char c =
     ((97 \<le> (of_char c :: nat) \<and> (of_char c :: nat) \<le> 122) \<or>
      (65 \<le> (of_char c :: nat) \<and> (of_char c :: nat) \<le> 90) \<or>
      (48 \<le> (of_char c :: nat) \<and> (of_char c :: nat) \<le> 57) \<or>
      c = CHR ''-'' \<or> c = CHR ''_'')"

definition template_key :: "string \<Rightarrow> bool" where
  "template_key k = (\<forall>c \<in> set k. key_char c)"

fun key_match :: "bool \<Rightarrow> string \<Rightarrow> string \<Rightarrow> string option" where
  "key_match dotall [] t = Some t"
| "key_match dotall (k # ks) [] = None"
| "key_match dotall (k # ks) (c # cs) =
     (if (if k = CHR ''.'' then dotall \<or> \<not> line_term c else k = c)
      then key_match dotall ks cs else None)"

text \<open>
  One attempt of the pattern at the start of \<open>t\<close>: quote, key, quote, colon, white space,
  an opening brace, the longest run without a closing brace, a closing brace. The result is
  the matched text and what follows it. Both starred parts are followed by a character they
  cannot contain, so the greedy match is the only one.
\<close>

definition block_at :: "bool \<Rightarrow> string \<Rightarrow> string \<Rightarrow> (string \<times> string) option" where
  "block_at dotall k t =
     (case t of
        [] \<Rightarrow> None
      | c # t1 \<Rightarrow>
          if c \<noteq> dq then None
          else (case key_match dotall k t1 of
                  None \<Rightarrow> None
                | Some t2 \<Rightarrow>
                    (case t2 of
                       a # b # t3 \<Rightarrow>
                         if a = dq \<and> b = CHR '':'' then
                           (case dropWhile is_space t3 of
                              ob # t4 \<Rightarrow>
                                if ob = CHR ''{'' then
                                  (case dropWhile (\<lambda>c. c \<noteq> CHR ''}'') t4 of
                                     cb # rest \<Rightarrow>
                                       Some (take (length t - length rest) t, rest)
                                   | [] \<Rightarrow> None)
                                else None
                            | [] \<Rightarrow> None)
                         else None
                     | _ \<Rightarrow> None)))"

text \<open>\<^verbatim>\<open>text.match(re)\<close> with the \<^verbatim>\<open>g\<close> flag, element 0: the leftmost match, \<open>None\<close> for null.\<close>

fun first_block :: "bool \<Rightarrow> string \<Rightarrow> string \<Rightarrow> string option" where
  "first_block dotall k [] = None"
| "first_block dotall k (c # cs) =
     (case block_at dotall k (c # cs) of
        Some (m, rest) \<Rightarrow> Some m
      | None \<Rightarrow> first_block dotall k cs)"

section \<open>Field extraction\<close>

text \<open>
  The field patterns are regular expression literals with doubled backslashes:
  \<^verbatim>\<open>/x:\\s*(\\d+)/\<close> is the text \<^verbatim>\<open>x:\<close>, a backslash, any number of letters \<^verbatim>\<open>s\<close>, a backslash,
  one or more letters \<^verbatim>\<open>d\<close>; the group captures the second backslash and the letters.
\<close>

fun starts_with :: "string \<Rightarrow> string \<Rightarrow> bool" where
  "starts_with [] t = True"
| "starts_with (p # ps) [] = False"
| "starts_with (p # ps) (c # cs) = (p = c \<and> starts_with ps cs)"

definition int_field_at :: "string \<Rightarrow> string \<Rightarrow> string option" where
  "int_field_at name t =
     (if starts_with (name @ [CHR '':'', bsl]) t then
        (case dropWhile (\<lambda>c. c = CHR ''s'') (drop (length name + 2) t) of
           b # t1 \<Rightarrow>
             if b = bsl \<and> takeWhile (\<lambda>c. c = CHR ''d'') t1 \<noteq> []
             then Some (bsl # takeWhile (\<lambda>c. c = CHR ''d'') t1) else None
         | [] \<Rightarrow> None)
      else None)"

fun int_field :: "string \<Rightarrow> string \<Rightarrow> string option" where
  "int_field name [] = None"
| "int_field name (c # cs) =
     (case int_field_at name (c # cs) of
        Some g \<Rightarrow> Some g
      | None \<Rightarrow> int_field name cs)"

text \<open>
  \<^verbatim>\<open>/opacity:\\s*([\\d.]+)/\<close>: the class holds the backslash, the letter \<^verbatim>\<open>d\<close> and the dot.
\<close>

definition opacity_class :: "char \<Rightarrow> bool" where
  "opacity_class c = (c = bsl \<or> c = CHR ''d'' \<or> c = CHR ''.'')"

definition opacity_field_at :: "string \<Rightarrow> string option" where
  "opacity_field_at t =
     (if starts_with (''opacity:'' @ [bsl]) t then
        (let g = takeWhile opacity_class (dropWhile (\<lambda>c. c = CHR ''s'') (drop 9 t))
         in if g = [] then None else Some g)
      else None)"

fun opacity_field :: "string \<Rightarrow> string option" where
  "opacity_field [] = None"
| "opacity_field (c # cs) =
     (case opacity_field_at (c # cs) of
        Some g \<Rightarrow> Some g
      | None \<Rightarrow> opacity_field cs)"

text \<open>
  The body of \<^verbatim>\<open>if (formMatch) { ... }\<close> in \<^verbatim>\<open>getFreshSignaturePosition\<close> (and, word for
  word, in \<^verbatim>\<open>handleVerifySignaturePosition\<close>): \<open>None\<close> when one of the four matches is null.
\<close>

definition parse_block :: "string \<Rightarrow> position option" where
  "parse_block positionText =
     (case (int_field ''x'' positionText, int_field ''y'' positionText,
            int_field ''width'' positionText, int_field ''height'' positionText) of
        (Some xm, Some ym, Some wm, Some hm) \<Rightarrow>
          Some \<lparr>x = parseInt xm, y = parseInt ym, width = parseInt wm, height = parseInt hm,
                opacity = Some (case opacity_field positionText of
                                  Some om \<Rightarrow> parseFloat om
                                | None \<Rightarrow> default_opacity)\<rparr>
      | _ \<Rightarrow> None)"

definition parse_position :: "string \<Rightarrow> string \<Rightarrow> position option" where
  "parse_position fileContent formType =
     (case first_block False formType fileContent of
        Some positionText \<Rightarrow> parse_block positionText
      | None \<Rightarrow> None)"

section \<open>The writer\<close>

text \<open>\<^verbatim>\<open>fileContent.includes(p)\<close>.\<close>

fun includes_js :: "string \<Rightarrow> string \<Rightarrow> bool" where
  "includes_js p [] = (p = [])"
| "includes_js p (c # cs) = (starts_with p (c # cs) \<or> includes_js p cs)"

text \<open>\<^verbatim>\<open>fileContent.lastIndexOf(p)\<close>, \<open>None\<close> for \<^verbatim>\<open>-1\<close>.\<close>

fun lastIndexOf :: "string \<Rightarrow> string \<Rightarrow> nat option" where
  "lastIndexOf p [] = (if p = [] then Some 0 else None)"
| "lastIndexOf p (c # cs) =
     (case lastIndexOf p cs of
        Some i \<Rightarrow> Some (Suc i)
      | None \<Rightarrow> if starts_with p (c # cs) then Some 0 else None)"

definition trim :: "string \<Rightarrow> string" where
  "trim s = rev (dropWhile is_space (rev (dropWhile is_space s)))"

definition endsWith :: "string \<Rightarrow> char \<Rightarrow> bool" where
  "endsWith s c = (s \<noteq> [] \<and> last s = c)"

text \<open>
  The template literal \<^verbatim>\<open>newPositionString\<close>: the key, then the five fields on their own
  lines, the opacity being \<^verbatim>\<open>position.opacity || 0.7\<close>.
\<close>

definition newPositionString :: "string \<Rightarrow> position \<Rightarrow> string" where
  "newPositionString formType p =
     [dq] @ formType @ [dq] @ '': {'' @ [nl] @
     ''    x: '' @ show_num (x p) @ '','' @ [nl] @
     ''    y: '' @ show_num (y p) @ '','' @ [nl] @
     ''    width: '' @ show_num (width p) @ '','' @ [nl] @
     ''    height: '' @ show_num (height p) @ '','' @ [nl] @
     ''    opacity: '' @ show_num (opacity_or_default (opacity p)) @ [nl] @
     ''  }''"

text \<open>
  \<^verbatim>\<open>fileContent.replace(formPositionRegex, newPositionString)\<close> with the flags \<^verbatim>\<open>gs\<close>: every
  match, left to right, each search resuming after the previous match. The replacement text
  is inserted as it is (it holds no \<^verbatim>\<open>$\<close> for a key satisfying \<open>pattern_key\<close>).
\<close>

function replace_all :: "bool \<Rightarrow> string \<Rightarrow> string \<Rightarrow> string \<Rightarrow> string" where
  "replace_all dotall k new [] = []"
| "replace_all dotall k new (c # cs) =
     (case block_at dotall k (c # cs) of
        Some (m, rest) \<Rightarrow> new @ replace_all dotall k new rest
      | None \<Rightarrow> c # replace_all dotall k new cs)"
  by pat_completeness auto
termination
proof -
  have km: "length v \<le> length u" if "key_match d ks u = Some v" for d ks u v
    using that by (induction d ks u rule: key_match.induct) (auto split: if_splits)
  have dw: "length (dropWhile P u) \<le> length u" for P and u :: string
    by (simp add: length_dropWhile_le)
  have shorter: "length rest < length t" if a: "block_at dotall k t = Some (m, rest)"
    for dotall k t m rest
  proof -
    from a obtain c t1 where t: "t = c # t1" by (cases t) (auto simp: block_at_def)
    from a t obtain t2 where k2: "key_match dotall k t1 = Some t2"
      by (auto simp: block_at_def split: if_splits option.splits)
    from a t k2 obtain a' b' t3 where t2: "t2 = a' # b' # t3"
      by (auto simp: block_at_def split: if_splits option.splits list.splits)
    from a t k2 t2 obtain ob t4 where t4: "dropWhile is_space t3 = ob # t4"
      by (auto simp: block_at_def split: if_splits option.splits list.splits)
    from a t k2 t2 t4 obtain cb where r: "dropWhile (\<lambda>c. c \<noteq> CHR ''}'') t4 = cb # rest"
      by (auto simp: block_at_def split: if_splits option.splits list.splits)
    have "length rest < length t4" using dw[of "\<lambda>c. c \<noteq> CHR ''}''" t4] r by simp
    also have "\<dots> < length t3" using dw[of is_space t3] t4 by simp
    also have "\<dots> < length t2" using t2 by simp
    also have "\<dots> \<le> length t1" using km[OF k2] .
    also have "\<dots> < length t" using t by simp
    finally show ?thesis .
  qed
  show ?thesis
    by (relation "measure (\<lambda>(d, k, n, t). length t)") (auto dest: shorter)
qed

text \<open>
  The text transform of \<^verbatim>\<open>updateSignaturePositionInSourceCode\<close>: replace where the quoted
  key occurs in the text, else insert before the last \<^verbatim>\<open>};\<close>, else leave the text as it is.
\<close>

definition rewrite :: "string \<Rightarrow> position \<Rightarrow> string \<Rightarrow> string" where
  "rewrite formType p fileContent =
     (if includes_js ([dq] @ formType @ [dq]) fileContent
      then replace_all True formType (newPositionString formType p) fileContent
      else (case lastIndexOf ''};'' fileContent of
              Some insertPoint \<Rightarrow>
                (let beforeClosing = take insertPoint fileContent;
                     afterClosing = drop insertPoint fileContent;
                     needsComma = (\<not> endsWith (trim beforeClosing) (CHR ''{'') \<and>
                                   \<not> endsWith (trim beforeClosing) (CHR '',''))
                 in beforeClosing @ (if needsComma then '','' else []) @
                    [nl] @ ''  '' @ newPositionString formType p @ [nl] @ afterClosing)
            | None \<Rightarrow> fileContent))"

section \<open>The store: file, module object, and what was done\<close>

text \<open>
  The state the handlers work on: the configuration file (\<open>None\<close> when it cannot be read),
  whether it can be written, the catalogue object of the imported module, and the trace of
  file operations and of the verification warning. Deleting entries of \<^verbatim>\<open>require.cache\<close>
  leaves the module object that the handler has already imported as it is.
\<close>

datatype event = ReadOk | ReadFailed | WriteOk | WriteFailed | WarnMismatch

datatype error = StorageUnavailable

record store =
  content :: "string option"
  writable :: bool
  cached :: catalogue
  trace :: "event list"

definition readFile :: "store \<Rightarrow> string option \<times> store" where
  "readFile st =
     (case content st of
        None \<Rightarrow> (None, st\<lparr>trace := trace st @ [ReadFailed]\<rparr>)
      | Some t \<Rightarrow> (Some t, st\<lparr>trace := trace st @ [ReadOk]\<rparr>))"

definition writeFile :: "string \<Rightarrow> store \<Rightarrow> bool \<times> store" where
  "writeFile t st =
     (if writable st then (True, st\<lparr>content := Some t, trace := trace st @ [WriteOk]\<rparr>)
      else (False, st\<lparr>trace := trace st @ [WriteFailed]\<rparr>))"

text \<open>
  \<^verbatim>\<open>getFreshSignaturePosition\<close>: the position parsed from the file, else (no block, a field
  not matched, or the read failed) the cached module's answer.
\<close>

definition getFreshSignaturePosition :: "string \<Rightarrow> store \<Rightarrow> position option \<times> store" where
  "getFreshSignaturePosition formType st =
     (case readFile st of
        (None, st1) \<Rightarrow> (getSignaturePosition (cached st1) formType, st1)
      | (Some fileContent, st1) \<Rightarrow>
          (case parse_position fileContent formType of
             Some p \<Rightarrow> (Some p, st1)
           | None \<Rightarrow> (getSignaturePosition (cached st1) formType, st1)))"

text \<open>
  \<^verbatim>\<open>updateSignaturePositionInSourceCode\<close>: read, transform, write, read back (the last read
  only feeds a log line). A failed read or write is rethrown.
\<close>

definition updateSignaturePositionInSourceCode ::
    "string \<Rightarrow> position \<Rightarrow> store \<Rightarrow> (error + unit) \<times> store" where
  "updateSignaturePositionInSourceCode formType p st =
     (case readFile st of
        (None, st1) \<Rightarrow> (Inl StorageUnavailable, st1)
      | (Some fileContent, st1) \<Rightarrow>
          (case writeFile (rewrite formType p fileContent) st1 of
             (False, st2) \<Rightarrow> (Inl StorageUnavailable, st2)
           | (True, st2) \<Rightarrow>
               (case readFile st2 of
                  (None, st3) \<Rightarrow> (Inl StorageUnavailable, st3)
                | (Some updatedContent, st3) \<Rightarrow> (Inr (), st3))))"

section \<open>The request handlers\<close>

datatype jval = JStr string | JPos position | JBool bool | JNull | JUndefined

type_synonym response = "nat \<times> (string \<times> jval) list"

record save_body =
  body_pdfName :: "string option"
  body_position :: "position option"
  body_formType :: "string option"

definition pdfToFormMap :: "string \<rightharpoonup> string" where
  "pdfToFormMap =
     map_of [(''ABSACertificate.pdf'', ''absa-form''),
             (''BBPClearanceCertificate.pdf'', ''clearance-certificate-form''),
             (''sahlld.pdf'', ''sahl-certificate-form''),
             (''desco.pdf'', ''discovery-form''),
             (''liabWave.pdf'', ''liability-form''),
             (''Noncompliance.pdf'', ''noncompliance-form''),
             (''ML.pdf'', ''material-list-form''),
             (''form-absa-certificate'', ''absa-form''),
             (''form-clearance-certificate'', ''clearance-certificate-form''),
             (''form-sahl-certificate'', ''sahl-certificate-form''),
             (''form-discovery-geyser'', ''discovery-form''),
             (''form-liability-certificate'', ''liability-form'')]"

text \<open>A string is falsy when it is missing or empty; a missing one indexes as \<^verbatim>\<open>"undefined"\<close>.\<close>

definition truthy_str :: "string option \<Rightarrow> bool" where
  "truthy_str s = (s \<noteq> None \<and> s \<noteq> Some [])"

definition prop_key :: "string option \<Rightarrow> string" where
  "prop_key s = (case s of Some k \<Rightarrow> k | None \<Rightarrow> ''undefined'')"

text \<open>
  \<^verbatim>\<open>actualFormType\<close>: the form type of the request when it is truthy, else
  \<^verbatim>\<open>pdfToFormMap[pdfName] || pdfToFormMap[formType] || "default"\<close>.
\<close>

definition actualFormType :: "string \<Rightarrow> string option \<Rightarrow> string" where
  "actualFormType pdfName formType =
     (if truthy_str formType then prop_key formType
      else (case pdfToFormMap pdfName of
              Some k \<Rightarrow> k
            | None \<Rightarrow> (case pdfToFormMap (prop_key formType) of
                          Some k \<Rightarrow> k
                        | None \<Rightarrow> ''default'')))"

definition failed_save :: response where
  "failed_save = (500, [(''error'', JStr ''Failed to save signature position'')])"

text \<open>
  \<^verbatim>\<open>handleSavePDFSignaturePosition\<close>. The new position takes the four numbers of the request
  and the constant opacity 0.7. Reading \<^verbatim>\<open>oldPosition.x\<close> for the log after the write, and
  \<^verbatim>\<open>verificationPosition.x\<close> for the comparison, throws when the position is undefined; the
  \<^verbatim>\<open>catch\<close> turns every throw into the response 500.
\<close>

definition newPosition :: "position \<Rightarrow> position" where
  "newPosition pos = \<lparr>x = x pos, y = y pos, width = width pos, height = height pos,
                        opacity = Some default_opacity\<rparr>"

definition handleSavePDFSignaturePosition :: "save_body \<Rightarrow> store \<Rightarrow> response \<times> store" where
  "handleSavePDFSignaturePosition body st =
     (case body_position body of
        None \<Rightarrow> ((400, [(''error'', JStr ''PDF name and position are required'')]), st)
      | Some pos \<Rightarrow>
          if \<not> truthy_str (body_pdfName body)
          then ((400, [(''error'', JStr ''PDF name and position are required'')]), st)
          else
            (let pdfName = prop_key (body_pdfName body);
                 formType = actualFormType pdfName (body_formType body);
                 (oldPosition, st1) = getFreshSignaturePosition formType st;
                 st2 = st1\<lparr>cached := updateSignaturePosition formType (newPosition pos) (cached st1)\<rparr>
             in case updateSignaturePositionInSourceCode formType (newPosition pos) st2 of
                  (Inl e, st3) \<Rightarrow> (failed_save, st3)
                | (Inr u, st3) \<Rightarrow>
                    (case oldPosition of
                       None \<Rightarrow> (failed_save, st3)
                     | Some old \<Rightarrow>
                         (case getFreshSignaturePosition formType st3 of
                            (None, st4) \<Rightarrow> (failed_save, st4)
                          | (Some ver, st4) \<Rightarrow>
                              ((200, [(''message'', JStr ''Signature position saved successfully to source code''),
                                      (''formType'', JStr formType),
                                      (''pdfName'', JStr pdfName),
                                      (''position'', JPos (newPosition pos)),
                                      (''previousPosition'', JPos old)]),
                               (if strict_neq (x ver) (x (newPosition pos)) \<or>
                                   strict_neq (y ver) (y (newPosition pos))
                                then st4\<lparr>trace := trace st4 @ [WarnMismatch]\<rparr> else st4))))))"

text \<open>\<^verbatim>\<open>handleGetSignaturePosition\<close>: the form id of the route goes to the reader as it is.\<close>

definition handleGetSignaturePosition :: "string \<Rightarrow> store \<Rightarrow> response \<times> store" where
  "handleGetSignaturePosition formId st =
     (if formId = [] then ((400, [(''error'', JStr ''Form ID is required'')]), st)
      else (case getFreshSignaturePosition formId st of
              (position, st1) \<Rightarrow>
                ((200, [(''formId'', JStr formId),
                        (''position'', (case position of Some p \<Rightarrow> JPos p | None \<Rightarrow> JUndefined)),
                        (''message'', JStr ''Current signature position retrieved successfully (fresh read)'')]),
                 st1)))"

section \<open>The shipped configuration text\<close>

text \<open>The lines of \<^verbatim>\<open>server/config/signaturePositions.ts\<close> as shipped.\<close>

definition shipped_lines :: "string list" where
  "shipped_lines =
     [''// PDF signature positions configuration'',
      ''// This file is automatically updated when admins change signature positions'',
      [],
      ''export interface SignaturePosition {'',
      ''  x: number;'',
      ''  y: number;'',
      ''  width: number;'',
      ''  height: number;'',
      ''  opacity?: number;'',
      ''}'',
      [],
      ''export interface PDFSignatureConfig {'',
      ''  [pdfType: string]: SignaturePosition;'',
      ''}'',
      [],
      ''// Default signature positions for each PDF type'',
      ''export const signaturePositions: PDFSignatureConfig = {'',
      ''  '' @ [dq] @ ''absa-form'' @ [dq] @ '': {'',
      ''    x: 78,'',
      ''    y: 376,'',
      ''    width: 200,'',
      ''    height: 60,'',
      ''    opacity: 1'',
      ''  },'',
      ''  '' @ [dq] @ ''clearance-certificate-form'' @ [dq] @ '': {'',
      ''    x: 104,'',
      ''    y: 184,'',
      ''    width: 200,'',
      ''    height: 60,'',
      ''    opacity: 0.7'',
      ''  },'',
      ''  '' @ [dq] @ ''sahl-certificate-form'' @ [dq] @ '': {'',
      ''    x: 323,'',
      ''    y: 177,'',
      ''    width: 200,'',
      ''    height: 60,'',
      ''    opacity: 1'',
      ''  },'',
      ''  '' @ [dq] @ ''discovery-form'' @ [dq] @ '': {'',
      ''    x: 172,'',
      ''    y: 74,'',
      ''    width: 200,'',
      ''    height: 60,'',
      ''    opacity: 1'',
      ''  },'',
      ''  '' @ [dq] @ ''liability-form'' @ [dq] @ '': {'',
      ''    x: 360,'',
      ''    y: 580,'',
      ''    width: 200,'',
      ''    height: 60,'',
      ''    opacity: 1'',
      ''  },'',
      ''  '' @ [dq] @ ''noncompliance-form'' @ [dq] @ '': {'',
      ''    x: 300,'',
      ''    y: 700,'',
      ''    width: 200,'',
      ''    height: 60,'',
      ''    opacity: 0.7'',
      ''  },'',
      ''  '' @ [dq] @ ''material-list-form'' @ [dq] @ '': {'',
      ''    x: 320,'',
      ''    y: 750,'',
      ''    width: 200,'',
      ''    height: 60,'',
      ''    opacity: 0.7'',
      ''  },'',
      ''  '' @ [dq] @ ''default'' @ [dq] @ '': {'',
      ''    x: 168,'',
      ''    y: 722,'',
      ''    width: 200,'',
      ''    height: 30,'',
      ''    opacity: 0.7'',
      ''  }'',
      ''};'',
      [],
      ''// Function to get signature position for a specific form type'',
      ''export function getSignaturePosition(formType: string): SignaturePosition {'',
      ''  return signaturePositions[formType] || signaturePositions['' @ [dq] @ ''default'' @ [dq] @ ''];'',
      ''}'',
      [],
      ''// Function to update signature position (this will be called by admin API)'',
      ''export function updateSignaturePosition(formType: string, position: SignaturePosition): void {'',
      ''  signaturePositions[formType] = {'',
      ''    ...position,'',
      ''    opacity: position.opacity || 0.7 // Default transparency'',
      ''  };'',
      ''}'']"

definition shipped_text :: string where
  "shipped_text = concat (map (\<lambda>l. l @ [nl]) shipped_lines)"

definition shipped :: store where
  "shipped = \<lparr>content = Some shipped_text, writable = True, cached = signaturePositions, trace = []\<rparr>"

section \<open>The shape of a rendered block\<close>

text \<open>
  What \<open>newPositionString\<close> puts between the braces, and the characters that can occur
  there: those of a printed number, the field names, colon, comma, blank and newline.
\<close>

definition block_body :: "position \<Rightarrow> string" where
  "block_body p =
     [nl] @
     ''    x: '' @ show_num (x p) @ '','' @ [nl] @
     ''    y: '' @ show_num (y p) @ '','' @ [nl] @
     ''    width: '' @ show_num (width p) @ '','' @ [nl] @
     ''    height: '' @ show_num (height p) @ '','' @ [nl] @
     ''    opacity: '' @ show_num (opacity_or_default (opacity p)) @ [nl] @
     ''  ''"

definition num_char :: "char \<Rightarrow> bool" where
  "num_char c = (c \<in> set ''0123456789-.Na'')"

definition body_char :: "char \<Rightarrow> bool" where
  "body_char c = (num_char c \<or> c \<in> set ''xywidthegopac:, '' \<or> c = nl)"

text \<open>
  A block is plain when its only quotes are those of its key; a text has plain blocks for a
  key when every block of the key, wherever it starts, is plain.
\<close>

definition plain_block :: "string \<Rightarrow> bool" where
  "plain_block m = (length (filter (\<lambda>c. c = dq) m) = 2)"

fun blocks_plain :: "string \<Rightarrow> string \<Rightarrow> bool" where
  "blocks_plain k [] = True"
| "blocks_plain k (c # cs) =
     ((case block_at False k (c # cs) of
         Some (m, rest) \<Rightarrow> plain_block m
       | None \<Rightarrow> True) \<and> blocks_plain k cs)"

text \<open>
  Small texts on which a write disturbs another key: an entry whose fields have the form the
  field patterns ask for, next to a key with a dot; the same entry inside an unclosed block
  of another key; an entry closed by the last \<^verbatim>\<open>};\<close> of the text.
\<close>

definition quoted :: "string \<Rightarrow> string" where
  "quoted k = [dq] @ k @ [dq]"

definition backslash_fields :: string where
  "backslash_fields =
     ''x:'' @ [bsl, bsl] @ ''d y:'' @ [bsl, bsl] @ ''d width:'' @ [bsl, bsl] @
     ''d height:'' @ [bsl, bsl] @ ''d''"

definition dotted_text :: string where
  "dotted_text = quoted ''a-b'' @ '': {'' @ backslash_fields @ ''} '' @ quoted ''a.b''"

definition nested_text :: string where
  "nested_text = quoted ''a'' @ '': { '' @ quoted ''b'' @ '': {'' @ backslash_fields @ ''}''"

definition closing_text :: string where
  "closing_text = quoted ''b'' @ '': {x: 1};''"

definition nan_position :: position where
  "nan_position = \<lparr>x = NaN, y = NaN, width = NaN, height = NaN, opacity = Some (Dec 7 1)\<rparr>"

definition new_form_body :: save_body where
  "new_form_body = \<lparr>body_pdfName = Some ''NewForm.pdf'',
                    body_position = Some (mk_pos 10 20 50 50 (Dec 5 1)),
                    body_formType = Some ''new-form''\<rparr>"

definition clearance_body :: save_body where
  "clearance_body = \<lparr>body_pdfName = Some ''BBPClearanceCertificate.pdf'',
                     body_position = Some \<lparr>x = num 110, y = num 190, width = num 200,
                                           height = num 60, opacity = None\<rparr>,
                     body_formType = Some ''clearance-certificate-form''\<rparr>"

section \<open>What the field patterns can match\<close>

lemma starts_with_set: "starts_with p t \<Longrightarrow> set p \<subseteq> set t"
  by (induction p t rule: starts_with.induct) auto

lemma int_field_at_bsl: "int_field_at name t = Some g \<Longrightarrow> bsl \<in> set t"
  by (auto simp: int_field_at_def split: if_splits dest!: starts_with_set)

lemma int_field_bsl: "int_field name t = Some g \<Longrightarrow> bsl \<in> set t"
  by (induction t) (auto split: option.splits dest: int_field_at_bsl)

lemma parse_block_bsl: "parse_block t = Some p \<Longrightarrow> bsl \<in> set t"
  by (auto simp: parse_block_def split: option.splits dest: int_field_bsl)

lemma key_match_suffix: "key_match d k u = Some v \<Longrightarrow> \<exists>w. u = w @ v \<and> length w = length k"
proof (induction d k u rule: key_match.induct)
  case (3 dotall k ks c cs)
  then obtain w where "cs = w @ v" "length w = length ks" by (auto split: if_splits)
  then have "c # cs = (c # w) @ v \<and> length (c # w) = length (k # ks)" by simp
  then show ?case by blast
qed auto

lemma block_at_split:
  assumes "block_at d k t = Some (m, rest)"
  shows "t = m @ rest"
proof -
  from assms obtain c t1 where t: "t = c # t1" by (cases t) (auto simp: block_at_def)
  from assms t obtain t2 where k2: "key_match d k t1 = Some t2"
    by (auto simp: block_at_def split: if_splits option.splits)
  from assms t k2 obtain a' b' t3 where t2: "t2 = a' # b' # t3"
    by (auto simp: block_at_def split: if_splits option.splits list.splits)
  from assms t k2 t2 obtain ob t4 where t4: "dropWhile is_space t3 = ob # t4"
    by (auto simp: block_at_def split: if_splits option.splits list.splits)
  from assms t k2 t2 t4 obtain cb where r: "dropWhile (\<lambda>c. c \<noteq> CHR ''}'') t4 = cb # rest"
    by (auto simp: block_at_def split: if_splits option.splits list.splits)
  from assms t k2 t2 t4 r have m: "m = take (length t - length rest) t"
    by (auto simp: block_at_def split: if_splits option.splits list.splits)
  obtain w where w: "t1 = w @ t2" using key_match_suffix[OF k2] by blast
  have "t3 = takeWhile is_space t3 @ ob # t4"
    using t4 takeWhile_dropWhile_id[of is_space t3] by simp
  moreover have "t4 = takeWhile (\<lambda>c. c \<noteq> CHR ''}'') t4 @ cb # rest"
    using r takeWhile_dropWhile_id[of "\<lambda>c. c \<noteq> CHR ''}''" t4] by simp
  ultimately have "t = (c # w @ a' # b' # takeWhile is_space t3 @ ob #
      takeWhile (\<lambda>c. c \<noteq> CHR ''}'') t4 @ [cb]) @ rest"
    using t w t2 by simp
  then obtain pre where p: "t = pre @ rest" by blast
  have "take (length t - length rest) t = pre" unfolding p by simp
  then show ?thesis using m p by simp
qed

lemma first_block_set: "first_block d k t = Some m \<Longrightarrow> set m \<subseteq> set t"
proof (induction t)
  case (Cons c cs)
  show ?case
  proof (cases "block_at d k (c # cs)")
    case None
    with Cons show ?thesis by auto
  next
    case (Some mr)
    then obtain m' r where mr: "mr = (m', r)" by (cases mr)
    with Some Cons.prems have "m' = m" by simp
    with Some mr have "c # cs = m @ r" by (auto dest: block_at_split)
    then have "set (c # cs) = set m \<union> set r" by (metis set_append)
    then show ?thesis by blast
  qed
qed simp

lemma parse_position_no_bsl: "bsl \<notin> set t \<Longrightarrow> parse_position t k = None"
  by (cases "parse_position t k")
    (auto simp: parse_position_def split: option.splits dest!: first_block_set parse_block_bsl)

lemma block_at_not_dq: "c \<noteq> dq \<Longrightarrow> block_at d k (c # cs) = None"
  by (simp add: block_at_def)

lemma first_block_skip: "c \<noteq> dq \<Longrightarrow> first_block d k (c # cs) = first_block d k cs"
  by (simp add: block_at_not_dq)

lemma first_block_hit:
  "block_at d k (c # cs) = Some (m, r) \<Longrightarrow> first_block d k (c # cs) = Some m"
  by simp

lemma shipped_no_bsl: "bsl \<notin> set shipped_text"
  by (simp add: shipped_text_def shipped_lines_def bsl_def dq_def nl_def)

section \<open>Characters of the rendered block and of the rewritten text\<close>

lemma digit_char_mem: "digit_char d \<in> set ''0123456789''"
  unfolding digit_char_def by (rule nth_mem) simp

lemma digits_chars: "set (digits n) \<subseteq> set ''0123456789''"
proof (induction n rule: digits.induct)
  case (1 n)
  show ?case
  proof (cases "n < 10")
    case True
    then have "digits n = [digit_char n]" by (simp add: digits.simps)
    then show ?thesis using digit_char_mem[of n] by simp
  next
    case False
    then have "digits n = digits (n div 10) @ [digit_char (n mod 10)]"
      by (subst digits.simps) simp
    then show ?thesis using 1[OF False] digit_char_mem[of "n mod 10"] by simp
  qed
qed

lemma frac_digits_chars: "set (frac_digits e n) \<subseteq> set ''0123456789''"
proof (induction e arbitrary: n)
  case (Suc e)
  show ?case using Suc[of "n div 10"] digit_char_mem[of "n mod 10"] by simp
qed simp

lemma show_num_chars: "c \<in> set (show_num n) \<Longrightarrow> num_char c"
proof (cases n)
  case NaN
  assume "c \<in> set (show_num n)"
  with NaN show ?thesis by (auto simp: num_char_def)
next
  case (Dec m e)
  assume c: "c \<in> set (show_num n)"
  have "set (show_num (Dec m e)) \<subseteq> {CHR ''-'', CHR ''.''} \<union> set (digits (nat \<bar>m\<bar> div 10 ^ e))
      \<union> set (frac_digits e (nat \<bar>m\<bar> mod 10 ^ e))"
    by auto
  with c Dec have "c \<in> {CHR ''-'', CHR ''.''} \<union> set ''0123456789''"
    using digits_chars[of "nat \<bar>m\<bar> div 10 ^ e"] frac_digits_chars[of e "nat \<bar>m\<bar> mod 10 ^ e"]
    by blast
  then show ?thesis unfolding num_char_def by auto
qed

lemma block_body_chars: "c \<in> set (block_body p) \<Longrightarrow> body_char c"
proof -
  assume "c \<in> set (block_body p)"
  then have "c \<in> set ''xywidthegopac:, '' \<or> c = nl \<or> c \<in> set (show_num (x p))
      \<or> c \<in> set (show_num (y p)) \<or> c \<in> set (show_num (width p))
      \<or> c \<in> set (show_num (height p)) \<or> c \<in> set (show_num (opacity_or_default (opacity p)))"
    unfolding block_body_def by auto
  then show ?thesis unfolding body_char_def using show_num_chars by blast
qed

lemma body_char_not:
  "body_char c \<Longrightarrow> c \<noteq> dq \<and> c \<noteq> bsl \<and> c \<noteq> CHR ''}'' \<and> c \<noteq> CHR ''{''"
  by (auto simp: body_char_def num_char_def dq_def bsl_def nl_def)

lemma newPositionString_shape:
  "newPositionString k p = [dq] @ k @ [dq] @ '': {'' @ block_body p @ ''}''"
  by (simp add: newPositionString_def block_body_def)

lemma newPositionString_no_bsl: "bsl \<notin> set k \<Longrightarrow> bsl \<notin> set (newPositionString k p)"
  using block_body_chars[of bsl p] body_char_not[of bsl]
  by (auto simp: newPositionString_shape dq_def bsl_def)

lemma replace_all_set: "set (replace_all d k new t) \<subseteq> set t \<union> set new"
proof (induction d k new t rule: replace_all.induct)
  case (2 dotall k new c cs)
  show ?case
  proof (cases "block_at dotall k (c # cs)")
    case None
    with 2(1)[OF None] show ?thesis by auto
  next
    case (Some mr)
    obtain m rest where mr: "mr = (m, rest)" by (cases mr)
    with Some have "c # cs = m @ rest" by (auto dest: block_at_split)
    then have "set rest \<subseteq> set (c # cs)" by (metis Un_upper2 set_append)
    with 2(2)[OF Some mr[symmetric]] Some mr show ?thesis by auto
  qed
qed simp

lemma rewrite_set:
  "set (rewrite k p t) \<subseteq> set t \<union> set (newPositionString k p) \<union> {CHR '','', nl, CHR '' ''}"
  using replace_all_set[of True k "newPositionString k p" t]
  by (auto simp: rewrite_def Let_def split: option.splits dest: in_set_takeD in_set_dropD)

lemma rewrite_no_bsl: "bsl \<notin> set t \<Longrightarrow> bsl \<notin> set k \<Longrightarrow> bsl \<notin> set (rewrite k p t)"
  using rewrite_set[of k p t] newPositionString_no_bsl[of k p]
  by (auto simp: bsl_def nl_def)

section \<open>Where the block pattern matches\<close>

lemma starts_with_iff: "starts_with p t \<longleftrightarrow> (\<exists>s. t = p @ s)"
  by (induction p t rule: starts_with.induct) auto


lemma key_match_literal:
  "CHR ''.'' \<notin> set k \<Longrightarrow> key_match d k t = Some r \<longleftrightarrow> t = k @ r"
  by (induction d k t rule: key_match.induct) auto

lemma not_space_brace: "\<not> is_space (CHR ''{'')"
  by (simp add: is_space_def)

lemma block_at_iff:
  assumes "CHR ''.'' \<notin> set k"
  shows "block_at d k t = Some (m, rest) \<longleftrightarrow>
    (\<exists>ws body. t = dq # k @ dq # CHR '':'' # ws @ CHR ''{'' # body @ CHR ''}'' # rest
       \<and> (\<forall>c \<in> set ws. is_space c) \<and> CHR ''}'' \<notin> set body
       \<and> m = dq # k @ dq # CHR '':'' # ws @ CHR ''{'' # body @ [CHR ''}''])"
proof
  assume a: "block_at d k t = Some (m, rest)"
  from a obtain c t1 where t: "t = c # t1" by (cases t) (auto simp: block_at_def)
  from a t have c: "c = dq" by (auto simp: block_at_def split: if_splits)
  from a t obtain t2 where k2: "key_match d k t1 = Some t2"
    by (auto simp: block_at_def split: if_splits option.splits)
  from a t k2 obtain a' b' t3 where t2: "t2 = a' # b' # t3"
    by (auto simp: block_at_def split: if_splits option.splits list.splits)
  from a t k2 t2 have ab: "a' = dq" "b' = CHR '':''"
    by (auto simp: block_at_def split: if_splits option.splits list.splits)
  from a t k2 t2 obtain ob t4 where t4: "dropWhile is_space t3 = ob # t4"
    by (auto simp: block_at_def split: if_splits option.splits list.splits)
  from a t k2 t2 t4 have ob: "ob = CHR ''{''"
    by (auto simp: block_at_def split: if_splits option.splits list.splits)
  from a t k2 t2 t4 obtain cb where r: "dropWhile (\<lambda>c. c \<noteq> CHR ''}'') t4 = cb # rest"
    by (auto simp: block_at_def split: if_splits option.splits list.splits)
  have cb: "cb = CHR ''}''" using hd_dropWhile[of "\<lambda>c. c \<noteq> CHR ''}''" t4] r by auto
  have t1: "t1 = k @ t2" using key_match_literal[OF assms] k2 by blast
  let ?ws = "takeWhile is_space t3"
  let ?body = "takeWhile (\<lambda>c. c \<noteq> CHR ''}'') t4"
  have t3: "t3 = ?ws @ ob # t4"
    using t4 takeWhile_dropWhile_id[of is_space t3] by simp
  have t4': "t4 = ?body @ cb # rest"
    using r takeWhile_dropWhile_id[of "\<lambda>c. c \<noteq> CHR ''}''" t4] by simp
  have full: "t = dq # k @ dq # CHR '':'' # ?ws @ CHR ''{'' # ?body @ CHR ''}'' # rest"
    using t c t1 t2 ab t3 t4' ob cb by simp
  have ws: "\<forall>c \<in> set ?ws. is_space c" by (auto dest: set_takeWhileD)
  have body: "CHR ''}'' \<notin> set ?body" by (auto dest: set_takeWhileD)
  have "t = m @ rest" using a by (rule block_at_split)
  with full have "m = dq # k @ dq # CHR '':'' # ?ws @ CHR ''{'' # ?body @ [CHR ''}'']"
    by simp
  with full ws body show "\<exists>ws body. t = dq # k @ dq # CHR '':'' # ws @ CHR ''{'' # body @ CHR ''}'' # rest
       \<and> (\<forall>c \<in> set ws. is_space c) \<and> CHR ''}'' \<notin> set body
       \<and> m = dq # k @ dq # CHR '':'' # ws @ CHR ''{'' # body @ [CHR ''}'']"
    by blast
next
  assume "\<exists>ws body. t = dq # k @ dq # CHR '':'' # ws @ CHR ''{'' # body @ CHR ''}'' # rest
       \<and> (\<forall>c \<in> set ws. is_space c) \<and> CHR ''}'' \<notin> set body
       \<and> m = dq # k @ dq # CHR '':'' # ws @ CHR ''{'' # body @ [CHR ''}'']"
  then obtain ws body where t: "t = dq # k @ dq # CHR '':'' # ws @ CHR ''{'' # body @ CHR ''}'' # rest"
    and ws: "\<forall>c \<in> set ws. is_space c" and body: "CHR ''}'' \<notin> set body"
    and m: "m = dq # k @ dq # CHR '':'' # ws @ CHR ''{'' # body @ [CHR ''}'']" by blast
  have km: "key_match d k (k @ dq # CHR '':'' # ws @ CHR ''{'' # body @ CHR ''}'' # rest)
      = Some (dq # CHR '':'' # ws @ CHR ''{'' # body @ CHR ''}'' # rest)"
    using key_match_literal[OF assms] by blast
  have dws: "dropWhile is_space (ws @ CHR ''{'' # body @ CHR ''}'' # rest)
      = CHR ''{'' # body @ CHR ''}'' # rest"
  proof -
    have "\<And>c. c \<in> set ws \<Longrightarrow> is_space c" using ws by auto
    then have "dropWhile is_space (ws @ CHR ''{'' # body @ CHR ''}'' # rest)
        = dropWhile is_space (CHR ''{'' # body @ CHR ''}'' # rest)"
      by (rule dropWhile_append2)
    then show ?thesis using not_space_brace by simp
  qed
  have db: "dropWhile (\<lambda>c. c \<noteq> CHR ''}'') (body @ CHR ''}'' # rest) = CHR ''}'' # rest"
  proof -
    have "\<And>c. c \<in> set body \<Longrightarrow> c \<noteq> CHR ''}''" using body by auto
    then have "dropWhile (\<lambda>c. c \<noteq> CHR ''}'') (body @ CHR ''}'' # rest)
        = dropWhile (\<lambda>c. c \<noteq> CHR ''}'') (CHR ''}'' # rest)"
      by (rule dropWhile_append2)
    then show ?thesis by simp
  qed
  have e: "t = m @ rest" unfolding t m by simp
  have tk: "take (length t - length rest) t = m" unfolding e by simp
  show "block_at d k t = Some (m, rest)"
    using tk unfolding block_at_def t by (simp add: km dws db)
qed

lemma key_char_not:
  "key_char c \<Longrightarrow> c \<noteq> dq \<and> c \<noteq> bsl \<and> c \<noteq> nl \<and> c \<noteq> CHR ''.'' \<and> c \<noteq> CHR '':''
     \<and> c \<noteq> CHR '' '' \<and> c \<noteq> CHR '','' \<and> c \<noteq> CHR ''{'' \<and> c \<noteq> CHR ''}''"
  by (auto simp: key_char_def dq_def bsl_def nl_def)

lemma template_key_not:
  assumes "template_key k"
  shows "dq \<notin> set k" "bsl \<notin> set k" "nl \<notin> set k" "CHR ''.'' \<notin> set k" "CHR '':'' \<notin> set k"
    "CHR '' '' \<notin> set k" "CHR '','' \<notin> set k" "CHR ''{'' \<notin> set k" "CHR ''}'' \<notin> set k"
  using assms key_char_not unfolding template_key_def by blast+

lemma template_key_pattern: "template_key k \<Longrightarrow> pattern_key k"
proof -
  have "\<And>c. key_char c \<Longrightarrow> c \<noteq> bsl \<and> c \<notin> set ''^$*+?()[]{}|''"
    by (auto simp: key_char_def bsl_def)
  then show "template_key k \<Longrightarrow> pattern_key k"
    unfolding template_key_def pattern_key_def by blast
qed

lemma is_space_not_dq: "is_space c \<Longrightarrow> c \<noteq> dq"
  by (auto simp: is_space_def dq_def)

lemma block_body_no_brace: "CHR ''}'' \<notin> set (block_body p)"
  using block_body_chars[of "CHR ''}''" p] body_char_not[of "CHR ''}''"] by blast

lemma block_body_no_dq: "dq \<notin> set (block_body p)"
  using block_body_chars[of dq p] body_char_not[of dq] by blast

lemma block_at_rendered:
  assumes "CHR ''.'' \<notin> set k"
  shows "block_at d k (newPositionString k p @ r) = Some (newPositionString k p, r)"
proof -
  have sp: "\<forall>c \<in> set '' ''. is_space c" by (simp add: is_space_def)
  have "\<exists>ws body. newPositionString k p @ r
        = dq # k @ dq # CHR '':'' # ws @ CHR ''{'' # body @ CHR ''}'' # r
       \<and> (\<forall>c \<in> set ws. is_space c) \<and> CHR ''}'' \<notin> set body
       \<and> newPositionString k p = dq # k @ dq # CHR '':'' # ws @ CHR ''{'' # body @ [CHR ''}'']"
    apply (rule exI[of _ "'' ''"])
    apply (rule exI[of _ "block_body p"])
    using sp block_body_no_brace[of p] by (simp add: newPositionString_shape)
  then show ?thesis using block_at_iff[OF assms] by blast
qed

lemma first_block_rendered:
  "CHR ''.'' \<notin> set k \<Longrightarrow> first_block d k (newPositionString k p @ r) = Some (newPositionString k p)"
proof -
  assume a: "CHR ''.'' \<notin> set k"
  obtain c cs where s: "newPositionString k p @ r = c # cs"
    by (cases "newPositionString k p @ r") (auto simp: newPositionString_shape)
  show ?thesis using block_at_rendered[OF a, of d p r] unfolding s by simp
qed

lemma first_block_skip_all:
  "dq \<notin> set u \<Longrightarrow> first_block d k (u @ v) = first_block d k v"
  by (induction u) (auto simp: first_block_skip simp del: first_block.simps)

lemma block_at_header:
  assumes "CHR ''.'' \<notin> set k" and "block_at d k t = Some (m, rest)"
  shows "\<exists>s. t = (dq # k @ [dq]) @ s"
proof -
  from block_at_iff[OF assms(1)] assms(2) obtain ws body
    where "t = dq # k @ dq # CHR '':'' # ws @ CHR ''{'' # body @ CHR ''}'' # rest" by blast
  then have "t = (dq # k @ [dq]) @ (CHR '':'' # ws @ CHR ''{'' # body @ CHR ''}'' # rest)" by simp
  then show ?thesis by blast
qed


section \<open>The block of a key after its replacement\<close>

lemma key_match_dotall: "CHR ''.'' \<notin> set k \<Longrightarrow> key_match d k t = key_match d' k t"
  by (induction d k t rule: key_match.induct) auto

lemma block_at_dotall: "CHR ''.'' \<notin> set k \<Longrightarrow> block_at d k t = block_at d' k t"
proof -
  assume a: "CHR ''.'' \<notin> set k"
  have iff: "block_at d k t = Some (m, rest) \<longleftrightarrow> block_at d' k t = Some (m, rest)" for m rest
    unfolding block_at_iff[OF a] ..
  show ?thesis
  proof (cases "block_at d k t")
    case None
    show ?thesis
    proof (cases "block_at d' k t")
      case (Some mr)
      obtain m rest where "mr = (m, rest)" by (cases mr)
      with Some iff[of m rest] None show ?thesis by simp
    qed (simp add: None)
  next
    case (Some mr)
    obtain m rest where "mr = (m, rest)" by (cases mr)
    with Some iff[of m rest] show ?thesis by simp
  qed
qed

lemma replace_all_dotall:
  "CHR ''.'' \<notin> set k \<Longrightarrow> replace_all d k new t = replace_all d' k new t"
proof (induction d k new t rule: replace_all.induct)
  case (2 dotall k new c cs)
  show ?case
  proof (cases "block_at dotall k (c # cs)")
    case None
    then have n': "block_at d' k (c # cs) = None" using block_at_dotall[OF 2(3)] by metis
    show ?thesis using None n' 2(1)[OF None 2(3)] by simp
  next
    case (Some mr)
    obtain m rest where mr: "mr = (m, rest)" by (cases mr)
    have s': "block_at d' k (c # cs) = Some (m, rest)"
      using Some mr block_at_dotall[OF 2(3)] by metis
    show ?thesis using Some mr s' 2(2)[OF Some mr[symmetric] 2(3)] by simp
  qed
qed simp

lemma newPositionString_starts:
  "newPositionString k p @ r = dq # (k @ dq # CHR '':'' # CHR '' '' # CHR ''{'' # block_body p @ CHR ''}'' # r)"
  by (simp add: newPositionString_shape)

text \<open>A prefix without quotes of a rewritten text is a prefix of the text.\<close>

lemma replace_all_prefix:
  assumes "dq \<notin> set u"
  shows "replace_all d k (newPositionString k p) t = u @ z \<Longrightarrow>
    \<exists>t'. t = u @ t' \<and> replace_all d k (newPositionString k p) t' = z"
  using assms
proof (induction u arbitrary: t)
  case Nil
  then show ?case by simp
next
  case (Cons a u)
  from Cons.prems have a: "a \<noteq> dq" and u: "dq \<notin> set u" by auto
  show ?case
  proof (cases t)
    case Nil
    with Cons.prems show ?thesis by simp
  next
    case (Cons e es)
    show ?thesis
    proof (cases "block_at d k (e # es)")
      case (Some mr)
      obtain m rest where mr: "mr = (m, rest)" by (cases mr)
      have "replace_all d k (newPositionString k p) t
          = newPositionString k p @ replace_all d k (newPositionString k p) rest"
        using Some mr Cons by simp
      with Cons.prems(1) a show ?thesis by (simp add: newPositionString_starts)
    next
      case None
      then have "replace_all d k (newPositionString k p) t
          = e # replace_all d k (newPositionString k p) es"
        using Cons by simp
      with Cons.prems(1) have ea: "e = a"
        and r: "replace_all d k (newPositionString k p) es = u @ z" by auto
      from Cons.IH[OF r u] obtain t' where "es = u @ t'"
        "replace_all d k (newPositionString k p) t' = z" by blast
      with ea Cons show ?thesis by simp
    qed
  qed
qed

lemma block_at_brace:
  assumes "CHR ''.'' \<notin> set k" and "block_at d k t = Some (m, rest)"
  shows "CHR ''}'' \<in> set t"
proof -
  from block_at_iff[OF assms(1)] assms(2) obtain ws body
    where "t = dq # k @ dq # CHR '':'' # ws @ CHR ''{'' # body @ CHR ''}'' # rest" by blast
  then show ?thesis by simp
qed

lemma replace_all_no_brace:
  assumes "CHR ''.'' \<notin> set k"
  shows "CHR ''}'' \<notin> set t \<Longrightarrow> replace_all d k new t = t"
proof (induction t)
  case (Cons c cs)
  have "block_at d k (c # cs) = None"
  proof (cases "block_at d k (c # cs)")
    case (Some mr)
    obtain m rest where "mr = (m, rest)" by (cases mr)
    with Some block_at_brace[OF assms] Cons.prems show ?thesis by blast
  qed simp
  then show ?case using Cons by simp
qed simp

text \<open>Replacing blocks of a key creates no new block of that key.\<close>

lemma block_at_replaced:
  assumes k: "template_key k"
      and b: "block_at d k (c # replace_all d k (newPositionString k p) cs) = Some (m', r')"
  shows "\<exists>m r. block_at d k (c # cs) = Some (m, r)"
proof -
  let ?B = "newPositionString k p"
  note nk = template_key_not[OF k]
  from block_at_iff[OF nk(4)] b obtain ws body where
    e: "c # replace_all d k ?B cs = dq # k @ dq # CHR '':'' # ws @ CHR ''{'' # body @ CHR ''}'' # r'"
    and ws: "\<forall>c \<in> set ws. is_space c" by blast
  from e have c: "c = dq"
    and e1: "replace_all d k ?B cs = k @ (dq # CHR '':'' # ws @ CHR ''{'' # body @ CHR ''}'' # r')"
    by auto
  from replace_all_prefix[OF nk(1) e1] obtain t1 where cs: "cs = k @ t1"
    and e2: "replace_all d k ?B t1 = dq # CHR '':'' # ws @ CHR ''{'' # body @ CHR ''}'' # r'" by blast
  obtain e' es where t1: "t1 = e' # es" using e2 by (cases t1) auto
  have none: "block_at d k (e' # es) = None"
  proof (cases "block_at d k (e' # es)")
    case (Some mr)
    obtain m rest where mr: "mr = (m, rest)" by (cases mr)
    have "replace_all d k ?B t1 = ?B @ replace_all d k ?B rest"
      using Some mr t1 by simp
    with e2 have "k @ dq # CHR '':'' # CHR '' '' # CHR ''{'' # block_body p @ CHR ''}'' # replace_all d k ?B rest
        = CHR '':'' # ws @ CHR ''{'' # body @ CHR ''}'' # r'"
      by (simp add: newPositionString_starts)
    then have False using nk(5) by (cases k) (auto simp: dq_def)
    then show ?thesis ..
  qed simp
  then have "replace_all d k ?B t1 = e' # replace_all d k ?B es" using t1 by simp
  with e2 have e': "e' = dq"
    and e3: "replace_all d k ?B es = (CHR '':'' # ws @ [CHR ''{'']) @ (body @ CHR ''}'' # r')" by auto
  have "dq \<notin> set (CHR '':'' # ws @ [CHR ''{''])"
    using ws is_space_not_dq by (auto simp: dq_def)
  from replace_all_prefix[OF this e3] obtain t2 where es: "es = (CHR '':'' # ws @ [CHR ''{'']) @ t2"
    and e4: "replace_all d k ?B t2 = body @ CHR ''}'' # r'" by blast
  have "CHR ''}'' \<in> set t2"
  proof (rule ccontr)
    assume "CHR ''}'' \<notin> set t2"
    then have "replace_all d k ?B t2 = t2" by (rule replace_all_no_brace[OF nk(4)])
    with e4 \<open>CHR ''}'' \<notin> set t2\<close> show False by simp
  qed
  then obtain body2 r2 where t2: "t2 = body2 @ CHR ''}'' # r2" and b2: "CHR ''}'' \<notin> set body2"
    by (meson split_list_first)
  have "c # cs = dq # k @ dq # CHR '':'' # ws @ CHR ''{'' # body2 @ CHR ''}'' # r2"
    using c cs t1 e' es t2 by simp
  with ws b2 have "block_at d k (c # cs)
      = Some (dq # k @ dq # CHR '':'' # ws @ CHR ''{'' # body2 @ [CHR ''}''], r2)"
    using block_at_iff[OF nk(4), of d "c # cs"] by blast
  then show ?thesis by blast
qed

lemma first_block_replaced:
  assumes k: "template_key k"
  shows "first_block d k t = Some m \<Longrightarrow>
    first_block d k (replace_all d k (newPositionString k p) t) = Some (newPositionString k p)"
proof (induction t)
  case Nil
  then show ?case by simp
next
  case (Cons c cs)
  note nk = template_key_not[OF k]
  show ?case
  proof (cases "block_at d k (c # cs)")
    case (Some mr)
    obtain m1 rest where mr: "mr = (m1, rest)" by (cases mr)
    have "replace_all d k (newPositionString k p) (c # cs)
        = newPositionString k p @ replace_all d k (newPositionString k p) rest"
      using Some mr by simp
    then show ?thesis using first_block_rendered[OF nk(4)] by simp
  next
    case None
    with Cons.prems have "first_block d k cs = Some m" by simp
    from Cons.IH[OF this] have ih: "first_block d k (replace_all d k (newPositionString k p) cs)
        = Some (newPositionString k p)" .
    have "block_at d k (c # replace_all d k (newPositionString k p) cs) = None"
    proof (cases "block_at d k (c # replace_all d k (newPositionString k p) cs)")
      case (Some mr)
      obtain m' r' where "mr = (m', r')" by (cases mr)
      with Some block_at_replaced[OF k] None show ?thesis by fastforce
    qed simp
    then show ?thesis using None ih by simp
  qed
qed

section \<open>The rewritten text\<close>






lemma shipped_absa_block:
  "first_block False ''absa-form'' shipped_text
     = Some (newPositionString ''absa-form'' (mk_pos 78 376 200 60 (num 1)))"
  by (simp add: shipped_text_def shipped_lines_def first_block_skip first_block_hit
        newPositionString_def mk_pos_def num_def opacity_or_default_def nl_def dq_def
        block_at_def is_space_def digit_char_def digits.simps del: first_block.simps(2))

lemma first_block_includes:
  assumes "CHR ''.'' \<notin> set k"
  shows "first_block d k t = Some m \<Longrightarrow> includes_js (dq # k @ [dq]) t"
proof (induction t)
  case (Cons c cs)
  show ?case
  proof (cases "block_at d k (c # cs)")
    case None
    with Cons show ?thesis by simp
  next
    case (Some mr)
    obtain m1 r where "mr = (m1, r)" by (cases mr)
    with Some block_at_header[OF assms] obtain s where "c # cs = (dq # k @ [dq]) @ s" by blast
    then have "starts_with (dq # k @ [dq]) (c # cs)" unfolding starts_with_iff by blast
    then show ?thesis by simp
  qed
qed simp

lemma rewrite_replaces:
  assumes k: "template_key k" and b: "first_block False k t = Some m"
  shows "rewrite k p t = replace_all True k (newPositionString k p) t"
    and "first_block False k (rewrite k p t) = Some (newPositionString k p)"
proof -
  note nk = template_key_not[OF k]
  have inc: "includes_js ([dq] @ k @ [dq]) t"
    using first_block_includes[OF nk(4) b] by simp
  then show r: "rewrite k p t = replace_all True k (newPositionString k p) t"
    by (simp add: rewrite_def)
  have "replace_all True k (newPositionString k p) t = replace_all False k (newPositionString k p) t"
    by (rule replace_all_dotall[OF nk(4)])
  with r first_block_replaced[OF k b, of p]
  show "first_block False k (rewrite k p t) = Some (newPositionString k p)" by simp
qed

lemma rewrite_inserts:
  assumes "\<not> includes_js ([dq] @ k @ [dq]) t" and "lastIndexOf ''};'' t = Some i"
  shows "rewrite k p t
     = take i t @
       (if endsWith (trim (take i t)) (CHR ''{'') \<or> endsWith (trim (take i t)) (CHR '','')
        then [] else '','') @
       [nl] @ ''  '' @ newPositionString k p @ [nl] @ drop i t"
  using assms by (simp add: rewrite_def Let_def)



lemma first_block_not_mentioned:
  assumes "CHR ''.'' \<notin> set k" and "\<not> includes_js ([dq] @ k @ [dq]) t"
  shows "first_block d k t = None"
  using first_block_includes[OF assms(1), of d t] assms(2)
  by (cases "first_block d k t") auto

section \<open>Blocks of other keys\<close>

lemma first_split_unique:
  "xs @ a # ys = xs' @ a # ys' \<Longrightarrow> a \<notin> set xs \<Longrightarrow> a \<notin> set xs' \<Longrightarrow> xs = xs' \<and> ys = ys'"
proof (induction xs arbitrary: xs')
  case Nil
  then show ?case by (cases xs') auto
next
  case (Cons b xs)
  then show ?case by (cases xs') auto
qed

lemma filter_dq_empty: "filter (\<lambda>c. c = dq) w = [] \<longleftrightarrow> dq \<notin> set w"
  by (induction w) auto

lemma replace_all_skip:
  "dq \<notin> set u \<Longrightarrow> replace_all d k new (u @ v) = u @ replace_all d k new v"
  by (induction u) (auto simp: block_at_not_dq)

lemma block_at_colon:
  assumes "template_key k"
  shows "block_at d k (dq # CHR '':'' # s) = None"
proof (cases "block_at d k (dq # CHR '':'' # s)")
  case (Some mr)
  obtain m r where "mr = (m, r)" by (cases mr)
  with Some block_at_header[OF template_key_not(4)[OF assms]]
  obtain s' where "dq # CHR '':'' # s = (dq # k @ [dq]) @ s'" by blast
  then have "CHR '':'' # s = k @ dq # s'" by simp
  then have False using template_key_not(5)[OF assms] by (cases k) (auto simp: dq_def)
  then show ?thesis ..
qed simp

lemma block_at_other_key:
  assumes k: "template_key k" and k': "template_key k'" and ne: "k \<noteq> k'"
      and b: "block_at d k t = Some (m, r)"
  shows "block_at d k' t = None"
proof (cases "block_at d k' t")
  case (Some mr)
  obtain m' r' where "mr = (m', r')" by (cases mr)
  with Some block_at_header[OF template_key_not(4)[OF k']]
  obtain s' where e': "t = (dq # k' @ [dq]) @ s'" by blast
  from b block_at_header[OF template_key_not(4)[OF k]]
  obtain s where e: "t = (dq # k @ [dq]) @ s" by blast
  from e e' have "k @ dq # s = k' @ dq # s'" by simp
  then have "k = k'"
    using first_split_unique[of k dq s k' s'] template_key_not(1)[OF k] template_key_not(1)[OF k']
    by simp
  with ne show ?thesis by simp
qed simp

text \<open>The shape of a plain block: no quote after the colon.\<close>

lemma plain_block_shape:
  assumes k: "template_key k" and b: "block_at d k t = Some (m, r)" and p: "plain_block m"
  shows "\<exists>w. m = dq # k @ dq # CHR '':'' # w \<and> dq \<notin> set w \<and> t = m @ r"
proof -
  note nk = template_key_not[OF k]
  from block_at_iff[OF nk(4)] b obtain ws body where
    m: "m = dq # k @ dq # CHR '':'' # ws @ CHR ''{'' # body @ [CHR ''}'']" by blast
  let ?w = "ws @ CHR ''{'' # body @ [CHR ''}'']"
  have "filter (\<lambda>c. c = dq) k = []" using nk(1) by (simp add: filter_dq_empty)
  then have "length (filter (\<lambda>c. c = dq) m) = 2 + length (filter (\<lambda>c. c = dq) ?w)"
    unfolding m by (simp add: dq_def)
  with p have "filter (\<lambda>c. c = dq) ?w = []" by (simp add: plain_block_def)
  then have "dq \<notin> set ?w" using filter_dq_empty[of ?w] by blast
  moreover have "m = dq # k @ dq # CHR '':'' # ?w" using m by simp
  moreover have "t = m @ r" using b by (rule block_at_split)
  ultimately show ?thesis by blast
qed

lemma plain_rendered: "template_key k \<Longrightarrow> plain_block (newPositionString k p)"
proof -
  assume k: "template_key k"
  have "filter (\<lambda>c. c = dq) k = []"
    using template_key_not(1)[OF k] by (simp add: filter_dq_empty)
  moreover have "filter (\<lambda>c. c = dq) (block_body p) = []"
    using block_body_no_dq[of p] by (simp add: filter_dq_empty)
  ultimately show ?thesis
    by (simp add: plain_block_def newPositionString_shape dq_def)
qed

text \<open>Past a plain block of one key, the first block of another key is the one of the rest.\<close>

lemma first_block_past_block:
  assumes k: "template_key k" and k': "template_key k'" and ne: "k \<noteq> k'"
      and b: "block_at d k t = Some (m, r)" and p: "plain_block m"
  shows "first_block d k' t = first_block d k' r"
proof -
  from plain_block_shape[OF k b p] obtain w where
    m: "m = dq # k @ dq # CHR '':'' # w" and w: "dq \<notin> set w" and t: "t = m @ r" by blast
  have 1: "block_at d k' t = None" by (rule block_at_other_key[OF k k' ne b])
  have t': "t = dq # (k @ dq # CHR '':'' # w @ r)" using t m by simp
  have "first_block d k' t = first_block d k' (k @ (dq # CHR '':'' # w @ r))"
    using 1 unfolding t' by simp
  also have "\<dots> = first_block d k' (dq # CHR '':'' # w @ r)"
    by (rule first_block_skip_all[OF template_key_not(1)[OF k]])
  also have "\<dots> = first_block d k' ((CHR '':'' # w) @ r)"
    using block_at_colon[OF k', of d "w @ r"] by simp
  also have "\<dots> = first_block d k' r"
    by (rule first_block_skip_all) (use w in \<open>auto simp: dq_def\<close>)
  finally show ?thesis .
qed

lemma replace_all_past_block:
  assumes k: "template_key k" and k': "template_key k'" and ne: "k \<noteq> k'"
      and b: "block_at d k' t = Some (m, r)" and p: "plain_block m"
  shows "replace_all d k new t = m @ replace_all d k new r"
proof -
  from plain_block_shape[OF k' b p] obtain w where
    m: "m = dq # k' @ dq # CHR '':'' # w" and w: "dq \<notin> set w" and t: "t = m @ r" by blast
  have 1: "block_at d k t = None" by (rule block_at_other_key[OF k' k ne[symmetric] b])
  have t': "t = dq # (k' @ dq # CHR '':'' # w @ r)" using t m by simp
  have "replace_all d k new t = dq # replace_all d k new (k' @ (dq # CHR '':'' # w @ r))"
    using 1 unfolding t' by simp
  also have "\<dots> = dq # k' @ replace_all d k new (dq # CHR '':'' # w @ r)"
    using replace_all_skip[OF template_key_not(1)[OF k']] by simp
  also have "\<dots> = dq # k' @ dq # replace_all d k new ((CHR '':'' # w) @ r)"
    using block_at_colon[OF k, of d "w @ r"] by simp
  also have "\<dots> = dq # k' @ dq # (CHR '':'' # w) @ replace_all d k new r"
    using replace_all_skip[of "CHR '':'' # w" d k new r] w by (simp add: dq_def)
  finally show ?thesis using m by simp
qed

lemma block_at_rest:
  assumes "CHR ''.'' \<notin> set k" and "block_at d k (m @ r) = Some (m, r)"
  shows "block_at d k (m @ r2) = Some (m, r2)"
proof -
  from block_at_iff[OF assms(1)] assms(2) obtain ws body where
    ws: "\<forall>c \<in> set ws. is_space c" and body: "CHR ''}'' \<notin> set body"
    and m: "m = dq # k @ dq # CHR '':'' # ws @ CHR ''{'' # body @ [CHR ''}'']" by blast
  have "m @ r2 = dq # k @ dq # CHR '':'' # ws @ CHR ''{'' # body @ CHR ''}'' # r2"
    unfolding m by simp
  with ws body m show ?thesis using block_at_iff[OF assms(1), of d "m @ r2" m r2] by blast
qed

text \<open>Replacing the blocks of one key creates no block of another key.\<close>

lemma block_at_replaced_other:
  assumes k: "template_key k" and k': "template_key k'"
      and b: "block_at d k' (c # replace_all d k (newPositionString k p) cs) = Some (m', r')"
  shows "\<exists>m r. block_at d k' (c # cs) = Some (m, r)"
proof -
  let ?B = "newPositionString k p"
  note nk = template_key_not[OF k]
  note nk' = template_key_not[OF k']
  from block_at_iff[OF nk'(4)] b obtain ws body where
    e: "c # replace_all d k ?B cs = dq # k' @ dq # CHR '':'' # ws @ CHR ''{'' # body @ CHR ''}'' # r'"
    and ws: "\<forall>c \<in> set ws. is_space c" by blast
  from e have c: "c = dq"
    and e1: "replace_all d k ?B cs = k' @ (dq # CHR '':'' # ws @ CHR ''{'' # body @ CHR ''}'' # r')"
    by auto
  from replace_all_prefix[OF nk'(1) e1] obtain t1 where cs: "cs = k' @ t1"
    and e2: "replace_all d k ?B t1 = dq # CHR '':'' # ws @ CHR ''{'' # body @ CHR ''}'' # r'" by blast
  obtain e' es where t1: "t1 = e' # es" using e2 by (cases t1) auto
  have none: "block_at d k (e' # es) = None"
  proof (cases "block_at d k (e' # es)")
    case (Some mr)
    obtain m rest where mr: "mr = (m, rest)" by (cases mr)
    have "replace_all d k ?B t1 = ?B @ replace_all d k ?B rest"
      using Some mr t1 by simp
    with e2 have "k @ dq # CHR '':'' # CHR '' '' # CHR ''{'' # block_body p @ CHR ''}'' # replace_all d k ?B rest
        = CHR '':'' # ws @ CHR ''{'' # body @ CHR ''}'' # r'"
      by (simp add: newPositionString_starts)
    then have False using nk(5) by (cases k) (auto simp: dq_def)
    then show ?thesis ..
  qed simp
  then have "replace_all d k ?B t1 = e' # replace_all d k ?B es" using t1 by simp
  with e2 have e': "e' = dq"
    and e3: "replace_all d k ?B es = (CHR '':'' # ws @ [CHR ''{'']) @ (body @ CHR ''}'' # r')" by auto
  have "dq \<notin> set (CHR '':'' # ws @ [CHR ''{''])"
    using ws is_space_not_dq by (auto simp: dq_def)
  from replace_all_prefix[OF this e3] obtain t2 where es: "es = (CHR '':'' # ws @ [CHR ''{'']) @ t2"
    and e4: "replace_all d k ?B t2 = body @ CHR ''}'' # r'" by blast
  have "CHR ''}'' \<in> set t2"
  proof (rule ccontr)
    assume "CHR ''}'' \<notin> set t2"
    then have "replace_all d k ?B t2 = t2" by (rule replace_all_no_brace[OF nk(4)])
    with e4 \<open>CHR ''}'' \<notin> set t2\<close> show False by simp
  qed
  then obtain body2 r2 where t2: "t2 = body2 @ CHR ''}'' # r2" and b2: "CHR ''}'' \<notin> set body2"
    by (meson split_list_first)
  have "c # cs = dq # k' @ dq # CHR '':'' # ws @ CHR ''{'' # body2 @ CHR ''}'' # r2"
    using c cs t1 e' es t2 by simp
  with ws b2 have "block_at d k' (c # cs)
      = Some (dq # k' @ dq # CHR '':'' # ws @ CHR ''{'' # body2 @ [CHR ''}''], r2)"
    using block_at_iff[OF nk'(4), of d "c # cs"] by blast
  then show ?thesis by blast
qed

lemma blocks_plain_drop: "blocks_plain k (u @ v) \<Longrightarrow> blocks_plain k v"
  by (induction u) auto

lemma blocks_plain_at:
  assumes "CHR ''.'' \<notin> set k" and "blocks_plain k t" and "block_at d k t = Some (m, r)"
  shows "plain_block m"
proof -
  from assms(3) have "block_at False k t = Some (m, r)"
    using block_at_dotall[OF assms(1), of d t False] by simp
  with assms(2) show ?thesis by (cases t) (auto simp: block_at_def)
qed

text \<open>Replacing the blocks of a key leaves the first block of every other key as it is.\<close>

lemma first_block_other_key:
  assumes k: "template_key k" and k': "template_key k'" and ne: "k \<noteq> k'"
  shows "blocks_plain k t \<Longrightarrow> blocks_plain k' t \<Longrightarrow>
    first_block d k' (replace_all d k (newPositionString k p) t) = first_block d k' t"
proof (induction t rule: length_induct)
  case (1 t)
  note nk = template_key_not[OF k]
  note nk' = template_key_not[OF k']
  let ?B = "newPositionString k p"
  show ?case
  proof (cases t)
    case Nil
    then show ?thesis by simp
  next
    case (Cons c cs)
    show ?thesis
    proof (cases "block_at d k t")
      case (Some mr)
      obtain m r where mr: "mr = (m, r)" by (cases mr)
      have b: "block_at d k t = Some (m, r)" using Some mr by simp
      have pm: "plain_block m" by (rule blocks_plain_at[OF nk(4) 1(2) b])
      have tr: "t = m @ r" using b by (rule block_at_split)
      have lr: "length r < length t" using plain_block_shape[OF k b pm] by auto
      have pr: "blocks_plain k r" "blocks_plain k' r"
        using 1(2,3) tr blocks_plain_drop by metis+
      have "replace_all d k ?B t = ?B @ replace_all d k ?B r" using b Cons by simp
      then have "first_block d k' (replace_all d k ?B t)
          = first_block d k' (?B @ replace_all d k ?B r)" by simp
      also have "\<dots> = first_block d k' (replace_all d k ?B r)"
        by (rule first_block_past_block[OF k k' ne block_at_rendered[OF nk(4)] plain_rendered[OF k]])
      also have "\<dots> = first_block d k' r" using 1(1) lr pr by blast
      also have "\<dots> = first_block d k' t"
        by (rule first_block_past_block[OF k k' ne b pm, symmetric])
      finally show ?thesis .
    next
      case None
      have rc: "replace_all d k ?B t = c # replace_all d k ?B cs" using None Cons by simp
      show ?thesis
      proof (cases "block_at d k' t")
        case (Some mr)
        obtain m r where mr: "mr = (m, r)" by (cases mr)
        have b: "block_at d k' t = Some (m, r)" using Some mr by simp
        have pm: "plain_block m" by (rule blocks_plain_at[OF nk'(4) 1(3) b])
        have tr: "t = m @ r" using b by (rule block_at_split)
        have rt: "replace_all d k ?B t = m @ replace_all d k ?B r"
          by (rule replace_all_past_block[OF k k' ne b pm])
        have ba: "block_at d k' (m @ replace_all d k ?B r) = Some (m, replace_all d k ?B r)"
          using block_at_rest[OF nk'(4)] b tr by simp
        from plain_block_shape[OF k' b pm] obtain w where
          mw: "m = dq # k' @ dq # CHR '':'' # w" by blast
        have "first_block d k' (m @ replace_all d k ?B r) = Some m"
          using ba unfolding mw by simp
        then have "first_block d k' (replace_all d k ?B t) = Some m" using rt by simp
        moreover have "first_block d k' t = Some m" using b Cons by simp
        ultimately show ?thesis by simp
      next
        case None': None
        have "block_at d k' (c # replace_all d k ?B cs) = None"
        proof (cases "block_at d k' (c # replace_all d k ?B cs)")
          case (Some mr)
          obtain m' r' where "mr = (m', r')" by (cases mr)
          with Some block_at_replaced_other[OF k k'] None' Cons show ?thesis by fastforce
        qed simp
        then have "first_block d k' (replace_all d k ?B t)
            = first_block d k' (replace_all d k ?B cs)" using rc by simp
        also have "\<dots> = first_block d k' cs"
          using 1(1) 1(2,3) Cons by auto
        also have "\<dots> = first_block d k' t" using None' Cons by simp
        finally show ?thesis .
      qed
    qed
  qed
qed

lemma first_block_brace:
  assumes "CHR ''.'' \<notin> set k"
  shows "first_block d k t = Some m \<Longrightarrow> CHR ''}'' \<in> set t"
proof (induction t)
  case (Cons c cs)
  show ?case
  proof (cases "block_at d k (c # cs)")
    case None
    with Cons show ?thesis by simp
  next
    case (Some mr)
    obtain m1 r where "mr = (m1, r)" by (cases mr)
    with Some show ?thesis using block_at_brace[OF assms] by blast
  qed
qed simp

lemma is_space_not_brace: "is_space c \<Longrightarrow> c \<noteq> CHR ''}''"
  by (auto simp: is_space_def)

text \<open>A block found in a text is still the first one when the text goes on.\<close>

lemma first_block_append:
  assumes k: "template_key k"
  shows "first_block d k u = Some m \<Longrightarrow> first_block d k (u @ v) = Some m"
proof (induction u)
  case Nil
  then show ?case by simp
next
  case (Cons c cs)
  note nk = template_key_not[OF k]
  show ?case
  proof (cases "block_at d k (c # cs)")
    case (Some mr)
    obtain m1 r where mr: "mr = (m1, r)" by (cases mr)
    with Some Cons.prems have m1: "m1 = m" by simp
    have e: "c # cs = m @ r" using Some mr m1 by (auto dest: block_at_split)
    have b: "block_at d k (m @ r) = Some (m, r)" using Some mr m1 e by simp
    have e': "c # (cs @ v) = m @ (r @ v)" using e by (metis append_Cons append_assoc)
    have "block_at d k (c # (cs @ v)) = Some (m, r @ v)"
      unfolding e' by (rule block_at_rest[OF nk(4) b])
    then show ?thesis by simp
  next
    case None
    with Cons.prems have f: "first_block d k cs = Some m" by simp
    then have ih: "first_block d k (cs @ v) = Some m" by (rule Cons.IH)
    have "block_at d k (c # cs @ v) = None"
    proof (cases "block_at d k (c # cs @ v)")
      case (Some mr)
      obtain m2 r2 where mr: "mr = (m2, r2)" by (cases mr)
      from block_at_iff[OF nk(4)] Some mr obtain ws body where
        e: "c # cs @ v = dq # k @ dq # CHR '':'' # ws @ CHR ''{'' # body @ CHR ''}'' # r2"
        and ws: "\<forall>c \<in> set ws. is_space c" and body: "CHR ''}'' \<notin> set body" by blast
      let ?X = "dq # k @ dq # CHR '':'' # ws @ CHR ''{'' # body"
      have nX: "CHR ''}'' \<notin> set ?X"
        using body ws is_space_not_brace nk(9) by (auto simp: dq_def)
      have "CHR ''}'' \<in> set (c # cs)" using first_block_brace[OF nk(4) f] by simp
      then obtain a b' where ab: "c # cs = a @ CHR ''}'' # b'" and a: "CHR ''}'' \<notin> set a"
        by (meson split_list_first)
      have "a @ CHR ''}'' # (b' @ v) = ?X @ CHR ''}'' # r2"
        using ab e by (metis append_Cons append_assoc)
      from first_split_unique[OF this a nX] have "a = ?X" by simp
      with ab have "c # cs = dq # k @ dq # CHR '':'' # ws @ CHR ''{'' # body @ CHR ''}'' # b'"
        by simp
      with ws body have "block_at d k (c # cs)
          = Some (dq # k @ dq # CHR '':'' # ws @ CHR ''{'' # body @ [CHR ''}''], b')"
        using block_at_iff[OF nk(4), of d "c # cs"] by blast
      with None show ?thesis by simp
    qed simp
    then show ?thesis using ih by simp
  qed
qed

text \<open>What the replacement does around the first block of the key.\<close>

lemma replace_all_first:
  "first_block d k t = Some m \<Longrightarrow>
   \<exists>u v. t = u @ m @ v \<and> replace_all d k new t = u @ new @ replace_all d k new v"
proof (induction t)
  case (Cons c cs)
  show ?case
  proof (cases "block_at d k (c # cs)")
    case None
    with Cons.prems have "first_block d k cs = Some m" by simp
    from Cons.IH[OF this] obtain u v where
      "cs = u @ m @ v" "replace_all d k new cs = u @ new @ replace_all d k new v" by blast
    with None have "c # cs = (c # u) @ m @ v
        \<and> replace_all d k new (c # cs) = (c # u) @ new @ replace_all d k new v" by simp
    then show ?thesis by blast
  next
    case (Some mr)
    obtain m1 r where mr: "mr = (m1, r)" by (cases mr)
    with Some Cons.prems have m1: "m1 = m" by simp
    have r1: "replace_all d k new (c # cs) = [] @ new @ replace_all d k new r"
      using Some mr by simp
    have "c # cs = m @ r" using Some mr m1 by (auto dest: block_at_split)
    then have e: "c # cs = [] @ m @ r" by simp
    show ?thesis
    proof (intro exI conjI)
      show "c # cs = [] @ m @ r" by (rule e)
      show "replace_all d k new (c # cs) = [] @ new @ replace_all d k new r" by (rule r1)
    qed
  qed
qed simp

lemma replace_all_none: "first_block d k t = None \<Longrightarrow> replace_all d k new t = t"
proof (induction t)
  case (Cons c cs)
  then show ?case by (cases "block_at d k (c # cs)") auto
qed simp

lemma first_block_dotall:
  "CHR ''.'' \<notin> set k \<Longrightarrow> first_block d k t = first_block d' k t"
proof (induction t)
  case (Cons c cs)
  have "block_at d k (c # cs) = block_at d' k (c # cs)" by (rule block_at_dotall[OF Cons.prems])
  moreover have "first_block d k cs = first_block d' k cs" by (rule Cons.IH[OF Cons.prems])
  ultimately show ?case by (cases "block_at d' k (c # cs)") auto
qed simp

lemma blocks_plain_skip: "c \<noteq> dq \<Longrightarrow> blocks_plain k (c # cs) = blocks_plain k cs"
  by (simp add: block_at_not_dq)

lemma blocks_plain_hit:
  "block_at False k (c # cs) = Some (m, r) \<Longrightarrow> plain_block m \<Longrightarrow>
   blocks_plain k (c # cs) = blocks_plain k cs"
  by simp

lemma blocks_plain_miss:
  "block_at False k (c # cs) = None \<Longrightarrow> blocks_plain k (c # cs) = blocks_plain k cs"
  by simp

lemma shipped_plain_absa: "blocks_plain ''absa-form'' shipped_text"
  by (simp add: shipped_text_def shipped_lines_def blocks_plain_skip blocks_plain_hit blocks_plain_miss
      plain_block_def nl_def dq_def block_at_def is_space_def del: blocks_plain.simps(2))

lemma shipped_plain_default: "blocks_plain ''default'' shipped_text"
  by (simp add: shipped_text_def shipped_lines_def blocks_plain_skip blocks_plain_hit blocks_plain_miss
      plain_block_def nl_def dq_def block_at_def is_space_def del: blocks_plain.simps(2))

lemma shipped_mentions_absa: "includes_js ([dq] @ ''absa-form'' @ [dq]) shipped_text"
  by (simp add: shipped_text_def shipped_lines_def dq_def nl_def)

section \<open>The handlers, step by step\<close>

lemma getFresh_readable:
  "content st = Some t \<Longrightarrow>
   getFreshSignaturePosition k st
     = ((case parse_position t k of Some p \<Rightarrow> Some p
         | None \<Rightarrow> getSignaturePosition (cached st) k),
        st\<lparr>trace := trace st @ [ReadOk]\<rparr>)"
  by (simp add: getFreshSignaturePosition_def readFile_def split: option.splits)

lemma getFresh_unreadable:
  "content st = None \<Longrightarrow>
   getFreshSignaturePosition k st
     = (getSignaturePosition (cached st) k, st\<lparr>trace := trace st @ [ReadFailed]\<rparr>)"
  by (simp add: getFreshSignaturePosition_def readFile_def)

lemma updateSource_written:
  "content st = Some t \<Longrightarrow> writable st \<Longrightarrow>
   updateSignaturePositionInSourceCode k p st
     = (Inr (), st\<lparr>content := Some (rewrite k p t),
                    trace := trace st @ [ReadOk, WriteOk, ReadOk]\<rparr>)"
  by (simp add: updateSignaturePositionInSourceCode_def readFile_def writeFile_def)

lemma updateSource_write_failed:
  "content st = Some t \<Longrightarrow> \<not> writable st \<Longrightarrow>
   updateSignaturePositionInSourceCode k p st
     = (Inl StorageUnavailable, st\<lparr>trace := trace st @ [ReadOk, WriteFailed]\<rparr>)"
  by (simp add: updateSignaturePositionInSourceCode_def readFile_def writeFile_def)

lemma update_newPosition:
  "updateSignaturePosition k (newPosition pos) cat = cat(k \<mapsto> newPosition pos)"
  by (simp add: updateSignaturePosition_def opacity_or_default_def default_opacity_def
      newPosition_def)

lemma newPosition_xy: "x (newPosition pos) = x pos" "y (newPosition pos) = y pos"
  by (simp_all add: newPosition_def)

lemma handleSave_write_failed:
  assumes "content st = Some t" "\<not> writable st" "truthy_str (body_pdfName body)"
    "body_position body = Some pos"
  shows "handleSavePDFSignaturePosition body st
     = (failed_save,
        st\<lparr>cached := (cached st)(actualFormType (prop_key (body_pdfName body)) (body_formType body)
                          \<mapsto> newPosition pos),
           trace := trace st @ [ReadOk, ReadOk, WriteFailed]\<rparr>)"
  using assms
  by (simp add: handleSavePDFSignaturePosition_def Let_def getFresh_readable
      updateSource_write_failed update_newPosition split: prod.splits)

lemma handleSave_written:
  assumes "content st = Some t" "writable st" "truthy_str (body_pdfName body)"
    "body_position body = Some pos" "cached st ''default'' = Some d"
  shows "handleSavePDFSignaturePosition body st
     = (let k = actualFormType (prop_key (body_pdfName body)) (body_formType body);
            old = (case parse_position t k of Some p \<Rightarrow> p
                   | None \<Rightarrow> (case cached st k of Some p \<Rightarrow> p | None \<Rightarrow> d));
            ver = (case parse_position (rewrite k (newPosition pos) t) k of Some p \<Rightarrow> p
                   | None \<Rightarrow> newPosition pos)
        in ((200, [(''message'', JStr ''Signature position saved successfully to source code''),
                   (''formType'', JStr k),
                   (''pdfName'', JStr (prop_key (body_pdfName body))),
                   (''position'', JPos (newPosition pos)),
                   (''previousPosition'', JPos old)]),
            st\<lparr>content := Some (rewrite k (newPosition pos) t),
               cached := (cached st)(k \<mapsto> newPosition pos),
               trace := trace st @ [ReadOk, ReadOk, WriteOk, ReadOk, ReadOk] @
                 (if strict_neq (x ver) (x pos) \<or> strict_neq (y ver) (y pos)
                  then [WarnMismatch] else [])\<rparr>))"
  using assms
  by (auto simp add: handleSavePDFSignaturePosition_def Let_def getFresh_readable
      updateSource_written update_newPosition getSignaturePosition_def newPosition_xy
      split: prod.splits option.splits)

lemma getFresh_no_bsl:
  "content st = Some t \<Longrightarrow> bsl \<notin> set t \<Longrightarrow>
   fst (getFreshSignaturePosition k st) = getSignaturePosition (cached st) k"
  by (simp add: getFresh_readable parse_position_no_bsl)

lemma shipped_default: "signaturePositions ''default'' = Some (mk_pos 168 722 200 30 (Dec 7 1))"
  by (simp add: signaturePositions_def)

lemma clearance_facts:
  "truthy_str (body_pdfName clearance_body)"
  "body_position clearance_body
     = Some \<lparr>x = num 110, y = num 190, width = num 200, height = num 60, opacity = None\<rparr>"
  "actualFormType (prop_key (body_pdfName clearance_body)) (body_formType clearance_body)
     = ''clearance-certificate-form''"
  "prop_key (body_pdfName clearance_body) = ''BBPClearanceCertificate.pdf''"
  "newPosition \<lparr>x = num 110, y = num 190, width = num 200, height = num 60, opacity = None\<rparr>
     = mk_pos 110 190 200 60 (Dec 7 1)"
  by (simp_all add: clearance_body_def truthy_str_def actualFormType_def prop_key_def
      newPosition_def mk_pos_def default_opacity_def)

lemma shipped_facts:
  "content shipped = Some shipped_text" "writable shipped" "trace shipped = []"
  "cached shipped = signaturePositions"
  by (simp_all add: shipped_def)

lemma parse_rewritten_shipped:
  "bsl \<notin> set k \<Longrightarrow> parse_position (rewrite k p shipped_text) k' = None"
  by (rule parse_position_no_bsl) (rule rewrite_no_bsl [OF shipped_no_bsl])

lemma new_form_facts:
  "truthy_str (body_pdfName new_form_body)"
  "body_position new_form_body = Some (mk_pos 10 20 50 50 (Dec 5 1))"
  "body_formType new_form_body = Some ''new-form''"
  "actualFormType (prop_key (body_pdfName new_form_body)) (body_formType new_form_body) = ''new-form''"
  "newPosition (mk_pos 10 20 50 50 (Dec 5 1)) = mk_pos 10 20 50 50 (Dec 7 1)"
  by (simp_all add: new_form_body_def truthy_str_def actualFormType_def prop_key_def
      newPosition_def mk_pos_def default_opacity_def)

section \<open>The claims\<close>

text \<open>
  C1. A block in the canonical rendering should give back its four integers and its
  opacity. In the shipped configuration the block of \<^verbatim>\<open>"absa-form"\<close> is found, with all four
  fields in it, and the extraction from it fails all the same: each field pattern asks for
  a backslash after the colon.
\<close>

theorem C1_canonical_block_not_extracted:
  "first_block False ''absa-form'' shipped_text
     = Some (newPositionString ''absa-form'' (mk_pos 78 376 200 60 (num 1)))
   \<and> parse_block (newPositionString ''absa-form'' (mk_pos 78 376 200 60 (num 1))) = None
   \<and> parse_position shipped_text ''absa-form'' = None"
proof -
  have blk: "first_block False ''absa-form'' shipped_text
      = Some (newPositionString ''absa-form'' (mk_pos 78 376 200 60 (num 1)))"
    by (rule shipped_absa_block)
  have pos: "parse_position shipped_text ''absa-form'' = None"
    by (rule parse_position_no_bsl [OF shipped_no_bsl])
  from blk pos show ?thesis by (simp add: parse_position_def)
qed

text \<open>
  C2. Writing a record under a key and reading the key back should return the record. On
  the shipped store, writing \<open>{x: 1, y: 2, width: 3, height: 4, opacity: 1}\<close> under
  \<^verbatim>\<open>absa-form\<close> succeeds and the text then holds the new block for the key, but the read
  returns the record of the cached module: the field patterns match nothing in the block.
\<close>

theorem C2_written_block_not_read_back:
  "updateSignaturePositionInSourceCode ''absa-form'' (mk_pos 1 2 3 4 (num 1)) shipped
     = (Inr (), shipped\<lparr>content := Some (rewrite ''absa-form'' (mk_pos 1 2 3 4 (num 1)) shipped_text),
                        trace := [ReadOk, WriteOk, ReadOk]\<rparr>)
   \<and> first_block False ''absa-form'' (rewrite ''absa-form'' (mk_pos 1 2 3 4 (num 1)) shipped_text)
       = Some (newPositionString ''absa-form'' (mk_pos 1 2 3 4 (num 1)))
   \<and> fst (getFreshSignaturePosition ''absa-form''
           (snd (updateSignaturePositionInSourceCode ''absa-form'' (mk_pos 1 2 3 4 (num 1)) shipped)))
       = Some (mk_pos 78 376 200 60 (num 1))"
proof -
  let ?st = "shipped\<lparr>content := Some (rewrite ''absa-form'' (mk_pos 1 2 3 4 (num 1)) shipped_text),
                        trace := [ReadOk, WriteOk, ReadOk]\<rparr>"
  have w: "updateSignaturePositionInSourceCode ''absa-form'' (mk_pos 1 2 3 4 (num 1)) shipped
     = (Inr (), ?st)"
    using updateSource_written [OF shipped_facts(1,2)] by (simp add: shipped_facts)
  have tk: "template_key ''absa-form''" by (simp add: template_key_def key_char_def)
  have blk: "first_block False ''absa-form'' (rewrite ''absa-form'' (mk_pos 1 2 3 4 (num 1)) shipped_text)
       = Some (newPositionString ''absa-form'' (mk_pos 1 2 3 4 (num 1)))"
    by (rule rewrite_replaces(2) [OF tk shipped_absa_block])
  have nb: "bsl \<notin> set ''absa-form''" by (simp add: bsl_def)
  have c: "content ?st = Some (rewrite ''absa-form'' (mk_pos 1 2 3 4 (num 1)) shipped_text)" by simp
  have "fst (getFreshSignaturePosition ''absa-form'' ?st)
      = getSignaturePosition signaturePositions ''absa-form''"
    using getFresh_no_bsl [OF c rewrite_no_bsl [OF shipped_no_bsl nb]] by (simp add: shipped_facts)
  also have "\<dots> = Some (mk_pos 78 376 200 60 (num 1))"
    by (simp add: getSignaturePosition_def signaturePositions_def)
  finally show ?thesis using w blk by simp
qed




text \<open>
  C4 (as amended). Reading applies no alias resolution: the identifier
  \<^verbatim>\<open>ABSACertificate.pdf\<close>, which is no key of the catalogue, gets the \<^verbatim>\<open>default\<close> record.
  The alias table is consulted by the save handler only, when the request gives no form
  type; there the identifier resolves to \<^verbatim>\<open>absa-form\<close>.
\<close>

theorem C4_get_applies_no_alias:
  assumes "cached st ''ABSACertificate.pdf'' = None"
      and "cached st ''default'' = Some d"
      and "\<forall>t. content st = Some t \<longrightarrow> parse_position t ''ABSACertificate.pdf'' = None"
  shows "fst (handleGetSignaturePosition ''ABSACertificate.pdf'' st)
           = (200, [(''formId'', JStr ''ABSACertificate.pdf''),
                    (''position'', JPos d),
                    (''message'', JStr ''Current signature position retrieved successfully (fresh read)'')])
         \<and> actualFormType ''ABSACertificate.pdf'' None = ''absa-form''
         \<and> actualFormType ''ABSACertificate.pdf'' (Some []) = ''absa-form''"
proof -
  have "fst (getFreshSignaturePosition ''ABSACertificate.pdf'' st) = Some d"
  proof (cases "content st")
    case None
    then show ?thesis using assms(1,2) by (simp add: getFresh_unreadable getSignaturePosition_def)
  next
    case (Some t)
    then show ?thesis using assms by (simp add: getFresh_readable getSignaturePosition_def)
  qed
  then have "fst (handleGetSignaturePosition ''ABSACertificate.pdf'' st)
           = (200, [(''formId'', JStr ''ABSACertificate.pdf''),
                    (''position'', JPos d),
                    (''message'', JStr ''Current signature position retrieved successfully (fresh read)'')])"
    by (cases "getFreshSignaturePosition ''ABSACertificate.pdf'' st")
      (simp add: handleGetSignaturePosition_def)
  moreover have "actualFormType ''ABSACertificate.pdf'' None = ''absa-form''"
    by (simp add: actualFormType_def truthy_str_def pdfToFormMap_def)
  moreover have "actualFormType ''ABSACertificate.pdf'' (Some []) = ''absa-form''"
    by (simp add: actualFormType_def truthy_str_def pdfToFormMap_def)
  ultimately show ?thesis by blast
qed

text \<open>C4, witness: the shipped store.\<close>

theorem C4_get_applies_no_alias_witness:
  "fst (handleGetSignaturePosition ''ABSACertificate.pdf'' shipped)
           = (200, [(''formId'', JStr ''ABSACertificate.pdf''),
                    (''position'', JPos (mk_pos 168 722 200 30 (Dec 7 1))),
                    (''message'', JStr ''Current signature position retrieved successfully (fresh read)'')])
         \<and> actualFormType ''ABSACertificate.pdf'' None = ''absa-form''
         \<and> actualFormType ''ABSACertificate.pdf'' (Some []) = ''absa-form''"
proof -
  have 1: "cached shipped ''ABSACertificate.pdf'' = None"
    by (simp add: shipped_def signaturePositions_def)
  have 2: "cached shipped ''default'' = Some (mk_pos 168 722 200 30 (Dec 7 1))"
    by (simp add: shipped_def shipped_default)
  have 3: "\<forall>t. content shipped = Some t \<longrightarrow> parse_position t ''ABSACertificate.pdf'' = None"
    by (simp add: shipped_def parse_position_no_bsl shipped_no_bsl)
  show ?thesis by (rule C4_get_applies_no_alias [OF 1 2 3])
qed

text \<open>
  C4 as stated fails: on the shipped store, whose catalogue has the entry of \<^verbatim>\<open>absa-form\<close>,
  reading \<^verbatim>\<open>ABSACertificate.pdf\<close> gives the default record, not that entry.
\<close>

theorem C4_get_applies_no_alias_counterexample:
  "cached shipped ''absa-form'' = Some (mk_pos 78 376 200 60 (num 1))
   \<and> fst (getFreshSignaturePosition ''ABSACertificate.pdf'' shipped)
       = Some (mk_pos 168 722 200 30 (Dec 7 1))
   \<and> fst (getFreshSignaturePosition ''ABSACertificate.pdf'' shipped)
       \<noteq> Some (mk_pos 78 376 200 60 (num 1))"
proof -
  have "fst (getFreshSignaturePosition ''ABSACertificate.pdf'' shipped)
      = getSignaturePosition signaturePositions ''ABSACertificate.pdf''"
    using getFresh_no_bsl[of shipped shipped_text] shipped_no_bsl by (simp add: shipped_def)
  also have "\<dots> = Some (mk_pos 168 722 200 30 (Dec 7 1))"
    by (simp add: getSignaturePosition_def signaturePositions_def)
  finally show ?thesis
    by (simp add: shipped_def signaturePositions_def mk_pos_def num_def)
qed

text \<open>
  C5 (as amended). When the write fails, the save handler answers with the failure response
  and performs no verification read (the trace ends with the failed write); the text is
  unchanged, but the module object already holds the new record for the resolved key, and a
  read of the key that finds no position in the text returns that record.
\<close>

theorem C5_failed_write_keeps_text_not_memory:
  assumes "content st = Some t" and "\<not> writable st"
      and "truthy_str (body_pdfName body)" and "body_position body = Some pos"
  shows "handleSavePDFSignaturePosition body st
     = (failed_save,
        st\<lparr>cached := (cached st)(actualFormType (prop_key (body_pdfName body)) (body_formType body)
                          \<mapsto> newPosition pos),
           trace := trace st @ [ReadOk, ReadOk, WriteFailed]\<rparr>)
   \<and> (parse_position t (actualFormType (prop_key (body_pdfName body)) (body_formType body)) = None
        \<longrightarrow> fst (getFreshSignaturePosition
                   (actualFormType (prop_key (body_pdfName body)) (body_formType body))
                   (snd (handleSavePDFSignaturePosition body st)))
            = Some (newPosition pos))"
proof -
  let ?k = "actualFormType (prop_key (body_pdfName body)) (body_formType body)"
  let ?st' = "st\<lparr>cached := (cached st)(?k \<mapsto> newPosition pos),
           trace := trace st @ [ReadOk, ReadOk, WriteFailed]\<rparr>"
  have h: "handleSavePDFSignaturePosition body st = (failed_save, ?st')"
    using assms by (rule handleSave_write_failed)
  have c: "content ?st' = Some t" using assms(1) by simp
  have "parse_position t ?k = None \<longrightarrow>
      fst (getFreshSignaturePosition ?k ?st') = Some (newPosition pos)"
    by (simp add: getFresh_readable[OF c] getSignaturePosition_def)
  with h show ?thesis by simp
qed

text \<open>C5, witness: the shipped store made unwritable, a request for a new form.\<close>

theorem C5_failed_write_keeps_text_not_memory_witness:
  "handleSavePDFSignaturePosition new_form_body (shipped\<lparr>writable := False\<rparr>)
     = (failed_save,
        shipped\<lparr>writable := False,
                cached := signaturePositions(''new-form'' \<mapsto> mk_pos 10 20 50 50 (Dec 7 1)),
                trace := [ReadOk, ReadOk, WriteFailed]\<rparr>)
   \<and> fst (getFreshSignaturePosition ''new-form''
           (snd (handleSavePDFSignaturePosition new_form_body (shipped\<lparr>writable := False\<rparr>))))
       = Some (mk_pos 10 20 50 50 (Dec 7 1))"
proof -
  have 1: "content (shipped\<lparr>writable := False\<rparr>) = Some shipped_text" by (simp add: shipped_def)
  have 2: "\<not> writable (shipped\<lparr>writable := False\<rparr>)" by simp
  have p: "parse_position shipped_text ''new-form'' = None"
    by (rule parse_position_no_bsl[OF shipped_no_bsl])
  note th = C5_failed_write_keeps_text_not_memory [OF 1 2 new_form_facts(1,2),
      unfolded new_form_facts(4,5)]
  from th p have a: "handleSavePDFSignaturePosition new_form_body (shipped\<lparr>writable := False\<rparr>)
     = (failed_save,
        shipped\<lparr>writable := False,
                cached := (cached (shipped\<lparr>writable := False\<rparr>))(''new-form'' \<mapsto> mk_pos 10 20 50 50 (Dec 7 1)),
                trace := trace (shipped\<lparr>writable := False\<rparr>) @ [ReadOk, ReadOk, WriteFailed]\<rparr>)"
    and b: "fst (getFreshSignaturePosition ''new-form''
           (snd (handleSavePDFSignaturePosition new_form_body (shipped\<lparr>writable := False\<rparr>))))
       = Some (mk_pos 10 20 50 50 (Dec 7 1))"
    by blast+
  from a have "handleSavePDFSignaturePosition new_form_body (shipped\<lparr>writable := False\<rparr>)
     = (failed_save,
        shipped\<lparr>writable := False,
                cached := signaturePositions(''new-form'' \<mapsto> mk_pos 10 20 50 50 (Dec 7 1)),
                trace := [ReadOk, ReadOk, WriteFailed]\<rparr>)"
    by (simp add: shipped_def)
  with b show ?thesis by (simp only: simp_thms)
qed

text \<open>
  C5 as stated fails: before the failed update the key reads as the default record, after
  it as the record of the request.
\<close>

theorem C5_failed_write_keeps_text_not_memory_counterexample:
  "fst (getFreshSignaturePosition ''new-form'' (shipped\<lparr>writable := False\<rparr>))
     = Some (mk_pos 168 722 200 30 (Dec 7 1))
   \<and> fst (handleSavePDFSignaturePosition new_form_body (shipped\<lparr>writable := False\<rparr>)) = failed_save
   \<and> fst (getFreshSignaturePosition ''new-form''
            (snd (handleSavePDFSignaturePosition new_form_body (shipped\<lparr>writable := False\<rparr>))))
     = Some (mk_pos 10 20 50 50 (Dec 7 1))"
proof -
  let ?st = "shipped\<lparr>writable := False\<rparr>"
  have 1: "content ?st = Some shipped_text" by (simp add: shipped_def)
  have 2: "\<not> writable ?st" by simp
  have 3: "truthy_str (body_pdfName new_form_body)" by (simp add: new_form_body_def truthy_str_def)
  have 4: "body_position new_form_body = Some (mk_pos 10 20 50 50 (Dec 5 1))"
    by (simp add: new_form_body_def)
  have k: "actualFormType (prop_key (body_pdfName new_form_body)) (body_formType new_form_body)
      = ''new-form''"
    by (simp add: new_form_body_def actualFormType_def truthy_str_def prop_key_def)
  have np: "newPosition (mk_pos 10 20 50 50 (Dec 5 1)) = mk_pos 10 20 50 50 (Dec 7 1)"
    by (simp add: newPosition_def mk_pos_def default_opacity_def)
  have before: "fst (getFreshSignaturePosition ''new-form'' ?st)
     = Some (mk_pos 168 722 200 30 (Dec 7 1))"
    using getFresh_no_bsl [OF 1 shipped_no_bsl, of "''new-form''"]
    by (simp add: shipped_def getSignaturePosition_def signaturePositions_def)
  have h: "handleSavePDFSignaturePosition new_form_body ?st
     = (failed_save,
        ?st\<lparr>cached := (cached ?st)(''new-form'' \<mapsto> mk_pos 10 20 50 50 (Dec 7 1)),
           trace := trace ?st @ [ReadOk, ReadOk, WriteFailed]\<rparr>)"
    using handleSave_write_failed [OF 1 2 3 4] by (simp only: k np)
  have after: "fst (getFreshSignaturePosition ''new-form''
            (snd (handleSavePDFSignaturePosition new_form_body ?st)))
     = Some (mk_pos 10 20 50 50 (Dec 7 1))"
    unfolding h
    using getFresh_no_bsl [of "?st\<lparr>cached := (cached ?st)(''new-form'' \<mapsto> mk_pos 10 20 50 50 (Dec 7 1)),
           trace := trace ?st @ [ReadOk, ReadOk, WriteFailed]\<rparr>" shipped_text "''new-form''"]
      shipped_no_bsl
    by (simp add: shipped_def getSignaturePosition_def)
  from before h after show ?thesis by simp
qed

text \<open>
  C6 (as amended). After a successful write the save handler reads the resolved key again
  and compares \<open>x\<close> and \<open>y\<close> only; a mismatch adds a warning to the trace and nothing else.
  The response is always the success response with \<^verbatim>\<open>message\<close>, \<^verbatim>\<open>formType\<close> (the resolved
  key), \<^verbatim>\<open>pdfName\<close>, \<^verbatim>\<open>position\<close> (the new record) and \<^verbatim>\<open>previousPosition\<close>; it carries no
  verification flag.
\<close>

theorem C6_mismatch_only_warns:
  assumes "content st = Some t" and "writable st"
      and "truthy_str (body_pdfName body)" and "body_position body = Some pos"
      and "cached st ''default'' = Some d"
  shows "handleSavePDFSignaturePosition body st
     = (let k = actualFormType (prop_key (body_pdfName body)) (body_formType body);
            old = (case parse_position t k of Some p \<Rightarrow> p
                   | None \<Rightarrow> (case cached st k of Some p \<Rightarrow> p | None \<Rightarrow> d));
            ver = (case parse_position (rewrite k (newPosition pos) t) k of Some p \<Rightarrow> p
                   | None \<Rightarrow> newPosition pos)
        in ((200, [(''message'', JStr ''Signature position saved successfully to source code''),
                   (''formType'', JStr k),
                   (''pdfName'', JStr (prop_key (body_pdfName body))),
                   (''position'', JPos (newPosition pos)),
                   (''previousPosition'', JPos old)]),
            st\<lparr>content := Some (rewrite k (newPosition pos) t),
               cached := (cached st)(k \<mapsto> newPosition pos),
               trace := trace st @ [ReadOk, ReadOk, WriteOk, ReadOk, ReadOk] @
                 (if strict_neq (x ver) (x pos) \<or> strict_neq (y ver) (y pos)
                  then [WarnMismatch] else [])\<rparr>))"
  using assms by (rule handleSave_written)

text \<open>C6, witness: the clearance certificate request on the shipped store.\<close>

theorem C6_mismatch_only_warns_witness:
  "handleSavePDFSignaturePosition clearance_body shipped
     = ((200, [(''message'', JStr ''Signature position saved successfully to source code''),
               (''formType'', JStr ''clearance-certificate-form''),
               (''pdfName'', JStr ''BBPClearanceCertificate.pdf''),
               (''position'', JPos (mk_pos 110 190 200 60 (Dec 7 1))),
               (''previousPosition'', JPos (mk_pos 104 184 200 60 (Dec 7 1)))]),
        shipped\<lparr>content := Some (rewrite ''clearance-certificate-form''
                                   (mk_pos 110 190 200 60 (Dec 7 1)) shipped_text),
                cached := signaturePositions(''clearance-certificate-form''
                                   \<mapsto> mk_pos 110 190 200 60 (Dec 7 1)),
                trace := [ReadOk, ReadOk, WriteOk, ReadOk, ReadOk]\<rparr>)"
proof -
  have old: "signaturePositions ''clearance-certificate-form'' = Some (mk_pos 104 184 200 60 (Dec 7 1))"
    by (simp add: signaturePositions_def)
  have 5: "cached shipped ''default'' = Some (mk_pos 168 722 200 30 (Dec 7 1))"
    by (simp add: shipped_facts shipped_default)
  have nb: "bsl \<notin> set ''clearance-certificate-form''" by (simp add: bsl_def)
  show ?thesis
    using C6_mismatch_only_warns [OF shipped_facts(1,2) clearance_facts(1,2) 5]
    by (simp add: Let_def shipped_facts parse_position_no_bsl shipped_no_bsl
        parse_rewritten_shipped [OF nb] clearance_body_def truthy_str_def actualFormType_def
        prop_key_def newPosition_def mk_pos_def num_def default_opacity_def signaturePositions_def)
qed

text \<open>
  C6 as stated fails: the response of a successful save has exactly five fields, none of
  them a verification flag.
\<close>

theorem C6_mismatch_only_warns_counterexample:
  "fst (fst (handleSavePDFSignaturePosition clearance_body shipped)) = 200
   \<and> map fst (snd (fst (handleSavePDFSignaturePosition clearance_body shipped)))
       = [''message'', ''formType'', ''pdfName'', ''position'', ''previousPosition'']
   \<and> map_of (snd (fst (handleSavePDFSignaturePosition clearance_body shipped))) ''verified'' = None"
proof -
  have 5: "cached shipped ''default'' = Some (mk_pos 168 722 200 30 (Dec 7 1))"
    by (simp add: shipped_facts shipped_default)
  show ?thesis
    using handleSave_written [OF shipped_facts(1,2) clearance_facts(1,2) 5]
    by (simp add: Let_def)
qed

text \<open>
  C7 (as amended). For two different template keys \<open>k\<close> and \<open>k'\<close>, writing \<open>k\<close> leaves the
  block that the pattern finds for \<open>k'\<close>, and so its parsed result, as it is, provided that,
  when the text mentions \<open>k\<close>, the blocks of both keys are plain and, when it does not, the
  block of \<open>k'\<close> ends before the last \<^verbatim>\<open>};\<close>. The text around the first block of \<open>k\<close> is kept,
  the block is replaced by the rendered one (as is every further block of \<open>k\<close>); a key not
  mentioned gets its block, with separators, inserted before the last \<^verbatim>\<open>};\<close>, the text on
  both sides being kept.
\<close>

theorem C7_other_keys_untouched:
  assumes "template_key k" and "template_key k'" and "k \<noteq> k'"
      and "if includes_js ([dq] @ k @ [dq]) t
           then blocks_plain k t \<and> blocks_plain k' t
           else (\<forall>i. lastIndexOf ''};'' t = Some i \<longrightarrow> first_block False k' (take i t) \<noteq> None)"
  shows "first_block False k' (rewrite k p t) = first_block False k' t
       \<and> parse_position (rewrite k p t) k' = parse_position t k'
       \<and> (\<forall>m. first_block False k t = Some m \<longrightarrow>
            (\<exists>u v. t = u @ m @ v \<and>
                   rewrite k p t = u @ newPositionString k p @
                                   replace_all True k (newPositionString k p) v \<and>
                   (first_block False k v = None \<longrightarrow>
                      rewrite k p t = u @ newPositionString k p @ v)))
       \<and> (\<forall>i. \<not> includes_js ([dq] @ k @ [dq]) t \<and> lastIndexOf ''};'' t = Some i \<longrightarrow>
            rewrite k p t
              = take i t @
                (if endsWith (trim (take i t)) (CHR ''{'') \<or> endsWith (trim (take i t)) (CHR '','')
                 then [] else '','') @
                [nl] @ ''  '' @ newPositionString k p @ [nl] @ drop i t)
       \<and> (first_block False k t = None \<and>
            (includes_js ([dq] @ k @ [dq]) t \<or> lastIndexOf ''};'' t = None) \<longrightarrow>
            rewrite k p t = t)"
proof -
  note nk = template_key_not[OF assms(1)]
  note nk' = template_key_not[OF assms(2)]
  let ?B = "newPositionString k p"
  have blk: "first_block False k' (rewrite k p t) = first_block False k' t"
  proof (cases "includes_js ([dq] @ k @ [dq]) t")
    case True
    with assms(4) have pl: "blocks_plain k t" "blocks_plain k' t" by simp_all
    have "rewrite k p t = replace_all False k ?B t"
      using True replace_all_dotall[OF nk(4), of True ?B t False] by (simp add: rewrite_def)
    then show ?thesis using first_block_other_key[OF assms(1,2,3) pl, of False p] by simp
  next
    case False
    show ?thesis
    proof (cases "lastIndexOf ''};'' t")
      case None
      with False show ?thesis by (simp add: rewrite_def)
    next
      case (Some i)
      with False assms(4) obtain m' where m': "first_block False k' (take i t) = Some m'" by auto
      have "first_block False k' (take i t @ drop i t) = Some m'"
        by (rule first_block_append[OF assms(2) m'])
      then have 1: "first_block False k' t = Some m'" by simp
      have "first_block False k' (take i t @
          ((if endsWith (trim (take i t)) (CHR ''{'') \<or> endsWith (trim (take i t)) (CHR '','')
            then [] else '','') @ [nl] @ ''  '' @ ?B @ [nl] @ drop i t)) = Some m'"
        by (rule first_block_append[OF assms(2) m'])
      then have "first_block False k' (rewrite k p t) = Some m'"
        unfolding rewrite_inserts[OF False Some] .
      with 1 show ?thesis by simp
    qed
  qed
  then have prs: "parse_position (rewrite k p t) k' = parse_position t k'"
    by (simp add: parse_position_def)
  have frame1: "\<forall>m. first_block False k t = Some m \<longrightarrow>
            (\<exists>u v. t = u @ m @ v \<and>
                   rewrite k p t = u @ ?B @ replace_all True k ?B v \<and>
                   (first_block False k v = None \<longrightarrow> rewrite k p t = u @ ?B @ v))"
  proof (intro allI impI)
    fix m assume f: "first_block False k t = Some m"
    have rw: "rewrite k p t = replace_all True k ?B t" by (rule rewrite_replaces(1)[OF assms(1) f])
    from f have "first_block True k t = Some m"
      using first_block_dotall[OF nk(4), of True t False] by simp
    from replace_all_first[OF this, of ?B] obtain u v where
      uv: "t = u @ m @ v" "replace_all True k ?B t = u @ ?B @ replace_all True k ?B v" by blast
    have rw2: "rewrite k p t = u @ ?B @ replace_all True k ?B v" using rw uv(2) by (rule trans)
    have imp: "first_block False k v = None \<longrightarrow> rewrite k p t = u @ ?B @ v"
    proof
      assume "first_block False k v = None"
      then have "first_block True k v = None"
        using first_block_dotall[OF nk(4), of True v False] by simp
      then have "replace_all True k ?B v = v" by (rule replace_all_none)
      then show "rewrite k p t = u @ ?B @ v" using rw2 by (simp only:)
    qed
    show "\<exists>u v. t = u @ m @ v \<and>
                   rewrite k p t = u @ ?B @ replace_all True k ?B v \<and>
                   (first_block False k v = None \<longrightarrow> rewrite k p t = u @ ?B @ v)"
    proof (intro exI conjI)
      show "t = u @ m @ v" by (rule uv(1))
      show "rewrite k p t = u @ ?B @ replace_all True k ?B v" by (rule rw2)
      show "first_block False k v = None \<longrightarrow> rewrite k p t = u @ ?B @ v" by (rule imp)
    qed
  qed
  have frame2: "\<forall>i. \<not> includes_js ([dq] @ k @ [dq]) t \<and> lastIndexOf ''};'' t = Some i \<longrightarrow>
            rewrite k p t
              = take i t @
                (if endsWith (trim (take i t)) (CHR ''{'') \<or> endsWith (trim (take i t)) (CHR '','')
                 then [] else '','') @
                [nl] @ ''  '' @ ?B @ [nl] @ drop i t"
    using rewrite_inserts[of k t _ p] by blast
  have frame3: "first_block False k t = None \<and>
            (includes_js ([dq] @ k @ [dq]) t \<or> lastIndexOf ''};'' t = None) \<longrightarrow>
            rewrite k p t = t"
  proof
    assume a: "first_block False k t = None \<and>
            (includes_js ([dq] @ k @ [dq]) t \<or> lastIndexOf ''};'' t = None)"
    then have "first_block True k t = None"
      using first_block_dotall[OF nk(4), of True t False] by simp
    then have "replace_all True k ?B t = t" by (rule replace_all_none)
    with a show "rewrite k p t = t" by (auto simp: rewrite_def)
  qed
  show ?thesis
  proof (intro conjI)
    show "first_block False k' (rewrite k p t) = first_block False k' t" by (rule blk)
    show "parse_position (rewrite k p t) k' = parse_position t k'" by (rule prs)
  qed (rule frame1, rule frame2, rule frame3)
qed

text \<open>C7, witness: writing \<^verbatim>\<open>absa-form\<close> in the shipped text leaves \<^verbatim>\<open>default\<close> alone.\<close>

theorem C7_other_keys_untouched_witness:
  "first_block False ''default'' (rewrite ''absa-form'' (mk_pos 1 2 3 4 (num 1)) shipped_text)
     = first_block False ''default'' shipped_text
   \<and> parse_position (rewrite ''absa-form'' (mk_pos 1 2 3 4 (num 1)) shipped_text) ''default''
     = parse_position shipped_text ''default''"
proof -
  have 1: "template_key ''absa-form''" by (simp add: template_key_def key_char_def)
  have 2: "template_key ''default''" by (simp add: template_key_def key_char_def)
  have 3: "''absa-form'' \<noteq> ''default''" by simp
  have 4: "if includes_js ([dq] @ ''absa-form'' @ [dq]) shipped_text
           then blocks_plain ''absa-form'' shipped_text \<and> blocks_plain ''default'' shipped_text
           else (\<forall>i. lastIndexOf ''};'' shipped_text = Some i \<longrightarrow>
                  first_block False ''default'' (take i shipped_text) \<noteq> None)"
    using shipped_mentions_absa shipped_plain_absa shipped_plain_default by simp
  from C7_other_keys_untouched [OF 1 2 3 4, of "mk_pos 1 2 3 4 (num 1)"]
  show ?thesis by blast
qed

text \<open>
  C7 as stated fails: writing the key \<^verbatim>\<open>a.b\<close> removes the entry of \<^verbatim>\<open>a-b\<close>, whose parsed
  result goes from a record to nothing; so does writing \<^verbatim>\<open>a\<close> when the entry of \<^verbatim>\<open>b\<close> lies
  inside an unclosed block of \<^verbatim>\<open>a\<close>; and an insertion before a \<^verbatim>\<open>};\<close> that closes the entry
  of \<^verbatim>\<open>b\<close> changes the block found for \<^verbatim>\<open>b\<close>.
\<close>

theorem C7_other_keys_untouched_counterexample:
  "parse_position dotted_text ''a-b'' = Some nan_position
   \<and> parse_position (rewrite ''a.b'' (mk_pos 1 2 3 4 (num 1)) dotted_text) ''a-b'' = None
   \<and> parse_position nested_text ''b'' = Some nan_position
   \<and> parse_position (rewrite ''a'' (mk_pos 1 2 3 4 (num 1)) nested_text) ''b'' = None
   \<and> first_block False ''b'' closing_text = Some (quoted ''b'' @ '': {x: 1}'')
   \<and> first_block False ''b'' (rewrite ''a'' (mk_pos 1 2 3 4 (num 1)) closing_text)
       = Some (quoted ''b'' @ '': {x: 1,'' @ [nl] @ ''  '' @
               newPositionString ''a'' (mk_pos 1 2 3 4 (num 1)))"
proof -
  have a1: "parse_position dotted_text ''a-b'' = Some nan_position"
    by code_simp
  have a2: "parse_position (rewrite ''a.b'' (mk_pos 1 2 3 4 (num 1)) dotted_text) ''a-b'' = None"
    by code_simp
  have b1: "parse_position nested_text ''b'' = Some nan_position"
    by code_simp
  have b2: "parse_position (rewrite ''a'' (mk_pos 1 2 3 4 (num 1)) nested_text) ''b'' = None"
    by code_simp
  have c1: "first_block False ''b'' closing_text = Some (quoted ''b'' @ '': {x: 1}'')"
    by code_simp
  have c2: "first_block False ''b'' (rewrite ''a'' (mk_pos 1 2 3 4 (num 1)) closing_text)
       = Some (quoted ''b'' @ '': {x: 1,'' @ [nl] @ ''  '' @
               newPositionString ''a'' (mk_pos 1 2 3 4 (num 1)))"
    by code_simp
  from a1 a2 b1 b2 c1 c2 show ?thesis by blast
qed



text \<open>
  C9. A record that comes without opacity is stored with opacity 0.7, by the in-memory
  update and in the rendered block, whatever its four numbers are.
\<close>

theorem C9_missing_opacity_is_default:
  "updateSignaturePosition k \<lparr>x = a, y = b, width = w, height = h, opacity = None\<rparr> cat k
     = Some \<lparr>x = a, y = b, width = w, height = h, opacity = Some (Dec 7 1)\<rparr>
   \<and> newPositionString k \<lparr>x = a, y = b, width = w, height = h, opacity = None\<rparr>
     = [dq] @ k @ [dq] @ '': {'' @ [nl] @
       ''    x: '' @ show_num a @ '','' @ [nl] @
       ''    y: '' @ show_num b @ '','' @ [nl] @
       ''    width: '' @ show_num w @ '','' @ [nl] @
       ''    height: '' @ show_num h @ '','' @ [nl] @
       ''    opacity: 0.7'' @ [nl] @ ''  }''"
  by (simp add: updateSignaturePosition_def newPositionString_def opacity_or_default_def
      default_opacity_def digit_char_def digits.simps)

text \<open>
  C10. An explicit opacity 0 is stored as 0.7, in memory and in the rendered block, exactly
  as a missing opacity is; whatever the input, the stored opacity is a non-zero number.
\<close>

theorem C10_zero_opacity_is_default:
  "updateSignaturePosition k (p\<lparr>opacity := Some (num 0)\<rparr>) cat k
     = Some (p\<lparr>opacity := Some (Dec 7 1)\<rparr>)
   \<and> updateSignaturePosition k (p\<lparr>opacity := Some (num 0)\<rparr>) cat
     = updateSignaturePosition k (p\<lparr>opacity := None\<rparr>) cat
   \<and> newPositionString k (p\<lparr>opacity := Some (num 0)\<rparr>)
     = newPositionString k (p\<lparr>opacity := None\<rparr>)
   \<and> (\<exists>v. updateSignaturePosition k q cat k = Some (q\<lparr>opacity := Some v\<rparr>) \<and> truthy v
          \<and> newPositionString k q = newPositionString k (q\<lparr>opacity := Some v\<rparr>))"
proof -
  have tr: "truthy (opacity_or_default (opacity q))"
    by (cases "opacity q") (auto simp: opacity_or_default_def default_opacity_def)
  have idem: "opacity_or_default (Some (opacity_or_default (opacity q))) = opacity_or_default (opacity q)"
    using tr by (simp add: opacity_or_default_def)
  have "updateSignaturePosition k q cat k = Some (q\<lparr>opacity := Some (opacity_or_default (opacity q))\<rparr>)"
    by (simp add: updateSignaturePosition_def)
  moreover have "newPositionString k q
      = newPositionString k (q\<lparr>opacity := Some (opacity_or_default (opacity q))\<rparr>)"
    using idem by (simp add: newPositionString_def)
  ultimately have ex: "\<exists>v. updateSignaturePosition k q cat k = Some (q\<lparr>opacity := Some v\<rparr>) \<and> truthy v
          \<and> newPositionString k q = newPositionString k (q\<lparr>opacity := Some v\<rparr>)"
    using tr by blast
  have "updateSignaturePosition k (p\<lparr>opacity := Some (num 0)\<rparr>) cat k
     = Some (p\<lparr>opacity := Some (Dec 7 1)\<rparr>)"
    by (simp add: updateSignaturePosition_def opacity_or_default_def default_opacity_def num_def)
  moreover have "updateSignaturePosition k (p\<lparr>opacity := Some (num 0)\<rparr>) cat
     = updateSignaturePosition k (p\<lparr>opacity := None\<rparr>) cat"
    by (simp add: updateSignaturePosition_def opacity_or_default_def num_def)
  moreover have "newPositionString k (p\<lparr>opacity := Some (num 0)\<rparr>)
     = newPositionString k (p\<lparr>opacity := None\<rparr>)"
    by (simp add: newPositionString_def opacity_or_default_def num_def)
  ultimately show ?thesis using ex by blast
qed


end
